theory Spec2Isabelle
  imports Complex_Main "HOL-Library.Product_Lexorder" "HOL-Library.Multiset"
    "HOL-Library.Log_Nat"
begin

section \<open>Times of day\<close>

text \<open>
  A \<^verbatim>\<open>datetime.time\<close> value as the attendance parser produces it: naive (no time zone),
  with the four fields Python compares. A valid value has \<open>hour < 24\<close>, \<open>minute < 60\<close>,
  \<open>second < 60\<close> and \<open>microsecond < 1000000\<close>. The parser accepts \<^verbatim>\<open>%H:%M:%S\<close>, so seconds
  do occur.
\<close>

datatype time = Time (hour: nat) (minute: nat) (second: nat) (microsecond: nat)

definition valid_time :: "time \<Rightarrow> bool" where
  "valid_time t = (hour t < 24 \<and> minute t < 60 \<and> second t < 60 \<and> microsecond t < 1000000)"

text \<open>Python orders two naive times by the tuple (hour, minute, second, microsecond).\<close>

definition time_key :: "time \<Rightarrow> nat \<times> nat \<times> nat \<times> nat" where
  "time_key t = (hour t, minute t, second t, microsecond t)"

instantiation time :: linorder
begin

definition less_eq_time :: "time \<Rightarrow> time \<Rightarrow> bool" where
  "less_eq_time a b = (time_key a \<le> time_key b)"

definition less_time :: "time \<Rightarrow> time \<Rightarrow> bool" where
  "less_time a b = (time_key a < time_key b)"

instance
proof
  fix x y z :: time
  show "(x < y) = (x \<le> y \<and> \<not> y \<le> x)"
    unfolding less_eq_time_def less_time_def by (rule less_le_not_le)
  show "x \<le> x"
    unfolding less_eq_time_def by (rule order_refl)
  show "x \<le> y \<Longrightarrow> y \<le> z \<Longrightarrow> x \<le> z"
    unfolding less_eq_time_def by (rule order_trans)
  show "x \<le> y \<Longrightarrow> y \<le> x \<Longrightarrow> x = y"
  proof -
    assume "x \<le> y" and "y \<le> x"
    then have "time_key x = time_key y"
      unfolding less_eq_time_def by (rule antisym)
    then show "x = y"
      by (cases x, cases y) (simp add: time_key_def)
  qed
  show "x \<le> y \<or> y \<le> x"
    unfolding less_eq_time_def by (rule linear)
qed

end

text \<open>
  \<^verbatim>\<open>TimeCalculator._time_to_minutes\<close>: \<^verbatim>\<open>if not t: return 0\<close>, else
  \<^verbatim>\<open>t.hour * 60 + t.minute\<close>. Every time object is truthy (Python 3.5 and later), so only
  \<^verbatim>\<open>None\<close> takes the first branch. Seconds are dropped.
\<close>

fun time_to_minutes :: "time option \<Rightarrow> int" where
  "time_to_minutes None = 0"
| "time_to_minutes (Some t) = int (hour t) * 60 + int (minute t)"

section \<open>Text rendering used for the displayed pairs\<close>

definition digit_char :: "nat \<Rightarrow> char" where
  "digit_char n = ''0123456789'' ! (n mod 10)"

fun str_nat :: "nat \<Rightarrow> string" where
  "str_nat n = (if n < 10 then [digit_char n] else str_nat (n div 10) @ [digit_char n])"

declare str_nat.simps [simp del]

text \<open>Python's \<^verbatim>\<open>str\<close> of an integer, as the f-string of a duration applies it.\<close>

definition str_int :: "int \<Rightarrow> string" where
  "str_int i = (if i < 0 then ''-'' @ str_nat (nat (- i)) else str_nat (nat i))"

text \<open>\<^verbatim>\<open>t.strftime('%H:%M')\<close>: hour and minute, two digits each.\<close>

definition strftime_HM :: "time \<Rightarrow> string" where
  "strftime_HM t =
     [digit_char (hour t div 10), digit_char (hour t)] @ '':'' @
     [digit_char (minute t div 10), digit_char (minute t)]"

text \<open>\<^verbatim>\<open>f"{duration // 60}h {duration % 60}m"\<close>; Python's floor division and modulo.\<close>

definition format_duration :: "int \<Rightarrow> string" where
  "format_duration duration =
     str_int (duration div 60) @ ''h '' @ str_int (duration mod 60) @ ''m''"

section \<open>Records read and written by the time calculator\<close>

text \<open>
  A date is its proleptic Gregorian ordinal, \<^verbatim>\<open>date.toordinal()\<close>: 1 is 0001-01-01 and
  \<^verbatim>\<open>date.max\<close> (9999-12-31) is 3652059. Python compares and shifts dates through it.
\<close>

type_synonym date = int

text \<open>
  A parsed attendance row, with the keys the calculator reads. The parser's other keys
  (name, shift, late and overtime minutes) are never read by it.
\<close>

record punch_record =
  code :: string
  date :: date
  in_time :: "time option"
  out_time :: "time option"
  total_time :: "time option"
  remark :: "string option"

datatype attendance_status = PRESENT | ABSENT | PARTIAL

text \<open>One entry of the list \<^verbatim>\<open>_create_pairs\<close> builds: the keys 'in', 'out', 'duration'.\<close>

record pair =
  pair_in :: string
  pair_out :: "string option"
  pair_duration :: "string option"

text \<open>
  The dictionary \<^verbatim>\<open>_calculate_day_summary\<close> returns. \<open>in_out_pairs\<close> holds the list that
  the source serialises with \<^verbatim>\<open>json.dumps\<close> (\<open>None\<close> when the list is empty).
\<close>

record daily_summary =
  total_office_minutes :: int
  status :: attendance_status
  first_in :: "time option"
  last_out :: "time option"
  in_out_pairs :: "pair list option"
  day_remark :: "string option"

section \<open>Pairing IN and OUT times\<close>

text \<open>
  The inner loop of \<^verbatim>\<open>_calculate_from_pairs\<close> over \<^verbatim>\<open>enumerate(sorted_outs)\<close>: skip used
  indices, and at an OUT later than the IN compute the duration; only a positive duration
  ends the scan (\<^verbatim>\<open>break\<close>). The result is the index taken and the minutes added.
\<close>

fun find_out :: "time \<Rightarrow> (nat \<times> time) list \<Rightarrow> nat set \<Rightarrow> (nat \<times> int) option" where
  "find_out in_t [] used_outs = None"
| "find_out in_t ((i, out_t) # rest) used_outs =
     (if i \<in> used_outs then find_out in_t rest used_outs
      else if out_t > in_t then
        (let in_minutes = time_to_minutes (Some in_t);
             out_minutes = time_to_minutes (Some out_t);
             duration = out_minutes - in_minutes
         in if duration > 0 then Some (i, duration)
            else find_out in_t rest used_outs)
      else find_out in_t rest used_outs)"

text \<open>The outer loop over \<^verbatim>\<open>sorted_ins\<close>, carrying \<^verbatim>\<open>total_minutes\<close> and \<^verbatim>\<open>used_outs\<close>.\<close>

fun pairs_total_loop :: "time list \<Rightarrow> (nat \<times> time) list \<Rightarrow> int \<times> nat set \<Rightarrow> int \<times> nat set" where
  "pairs_total_loop [] outs st = st"
| "pairs_total_loop (in_t # ins) outs (total_minutes, used_outs) =
     (case find_out in_t outs used_outs of
        None \<Rightarrow> pairs_total_loop ins outs (total_minutes, used_outs)
      | Some (i, duration) \<Rightarrow>
          pairs_total_loop ins outs (total_minutes + duration, insert i used_outs))"

definition calculate_from_pairs :: "time list \<Rightarrow> time list \<Rightarrow> int" where
  "calculate_from_pairs ins outs =
     (if ins = [] \<or> outs = [] then 0
      else
        let sorted_ins = sort ins;
            sorted_outs = sort outs
        in fst (pairs_total_loop sorted_ins (enumerate 0 sorted_outs) (0, {})))"

text \<open>
  The inner loop of \<^verbatim>\<open>_create_pairs\<close>: the first unused OUT later than the IN is taken,
  whatever its duration.
\<close>

fun match_out :: "time \<Rightarrow> (nat \<times> time) list \<Rightarrow> nat set \<Rightarrow> (nat \<times> time) option" where
  "match_out in_t [] used_outs = None"
| "match_out in_t ((i, out_t) # rest) used_outs =
     (if i \<in> used_outs then match_out in_t rest used_outs
      else if out_t > in_t then Some (i, out_t)
      else match_out in_t rest used_outs)"

fun create_pairs_loop :: "time list \<Rightarrow> (nat \<times> time) list \<Rightarrow> nat set \<Rightarrow> pair list" where
  "create_pairs_loop [] outs used_outs = []"
| "create_pairs_loop (in_t # ins) outs used_outs =
     (case match_out in_t outs used_outs of
        None \<Rightarrow>
          \<lparr>pair_in = strftime_HM in_t, pair_out = None, pair_duration = None\<rparr>
            # create_pairs_loop ins outs used_outs
      | Some (i, out_t) \<Rightarrow>
          \<lparr>pair_in = strftime_HM in_t,
           pair_out = Some (strftime_HM out_t),
           pair_duration = Some (format_duration
             (time_to_minutes (Some out_t) - time_to_minutes (Some in_t)))\<rparr>
            # create_pairs_loop ins outs (insert i used_outs))"

definition create_pairs :: "time list \<Rightarrow> time list \<Rightarrow> pair list" where
  "create_pairs ins outs =
     create_pairs_loop (sort ins) (enumerate 0 (sort outs)) {}"

section \<open>The daily summary\<close>

text \<open>
  The four variables the loop of \<^verbatim>\<open>_calculate_day_summary\<close> fills. A record's in and out
  time are appended when present; the device total is taken only while none is held; a
  non-empty remark replaces the one held.
\<close>

record day_vars =
  in_times :: "time list"
  out_times :: "time list"
  total_from_device :: "time option"
  remark_var :: "string option"

definition truthy_str :: "string option \<Rightarrow> bool" where
  "truthy_str s = (case s of None \<Rightarrow> False | Some v \<Rightarrow> v \<noteq> [])"

definition day_step :: "punch_record \<Rightarrow> day_vars \<Rightarrow> day_vars" where
  "day_step r v =
     (let v1 = (case in_time r of None \<Rightarrow> v
                | Some t \<Rightarrow> v\<lparr>in_times := in_times v @ [t]\<rparr>);
          v2 = (case out_time r of None \<Rightarrow> v1
                | Some t \<Rightarrow> v1\<lparr>out_times := out_times v1 @ [t]\<rparr>);
          v3 = (if total_time r \<noteq> None \<and> total_from_device v2 = None
                then v2\<lparr>total_from_device := total_time r\<rparr> else v2)
      in if truthy_str (remark r) then v3\<lparr>remark_var := remark r\<rparr> else v3)"

fun day_loop :: "punch_record list \<Rightarrow> day_vars \<Rightarrow> day_vars" where
  "day_loop [] v = v"
| "day_loop (r # rs) v = day_loop rs (day_step r v)"

definition py_min :: "time list \<Rightarrow> time option" where
  "py_min xs = (case xs of [] \<Rightarrow> None | x # rest \<Rightarrow> Some (fold min rest x))"

definition py_max :: "time list \<Rightarrow> time option" where
  "py_max xs = (case xs of [] \<Rightarrow> None | x # rest \<Rightarrow> Some (fold max rest x))"

definition calculate_day_summary :: "punch_record list \<Rightarrow> daily_summary" where
  "calculate_day_summary day_records =
     (let v = day_loop day_records
                \<lparr>in_times = [], out_times = [], total_from_device = None, remark_var = None\<rparr>;
          total_minutes =
            (if total_from_device v \<noteq> None then time_to_minutes (total_from_device v)
             else calculate_from_pairs (in_times v) (out_times v));
          st = (if total_minutes \<ge> 360 then PRESENT else ABSENT);
          pairs = create_pairs (in_times v) (out_times v)
      in \<lparr>total_office_minutes = total_minutes,
          status = st,
          first_in = py_min (in_times v),
          last_out = py_max (out_times v),
          in_out_pairs = (if pairs = [] then None else Some pairs),
          day_remark = remark_var v\<rparr>)"

text \<open>
  Methods of \<^verbatim>\<open>TimeCalculator\<close> that read no attribute of \<^verbatim>\<open>self\<close> are modelled without it.
  The status test is the constant 360 of the source; no setting reaches it.
\<close>

section \<open>The pairing rule in the specification's words\<close>

text \<open>
  The first element of a list that satisfies \<open>P\<close>, with the list left when it is taken out.
\<close>

fun take_first :: "('a \<Rightarrow> bool) \<Rightarrow> 'a list \<Rightarrow> ('a \<times> 'a list) option" where
  "take_first P [] = None"
| "take_first P (x # xs) =
     (if P x then Some (x, xs)
      else (case take_first P xs of
              None \<Rightarrow> None
            | Some (y, rest) \<Rightarrow> Some (y, x # rest)))"

text \<open>
  Greedy pairing over the ascending IN times and the ascending OUT times still unused:
  each IN is bound to the earliest unused OUT that \<open>binds\<close> allows, which is then no longer
  available; an IN with no such OUT adds nothing. The total is the sum of out minus in,
  in minutes, over the bound pairs.
\<close>

fun greedy_total :: "(time \<Rightarrow> time \<Rightarrow> bool) \<Rightarrow> time list \<Rightarrow> time list \<Rightarrow> int" where
  "greedy_total binds [] unused = 0"
| "greedy_total binds (i # ins) unused =
     (case take_first (binds i) unused of
        None \<Rightarrow> greedy_total binds ins unused
      | Some (out, rest) \<Rightarrow>
          (time_to_minutes (Some out) - time_to_minutes (Some i)) + greedy_total binds ins rest)"

text \<open>The specification's rule: the earliest unused OUT strictly greater than the IN.\<close>

definition spec_pairing_total :: "time list \<Rightarrow> time list \<Rightarrow> int" where
  "spec_pairing_total ins outs = greedy_total (\<lambda>i out. i < out) (sort ins) (sort outs)"

text \<open>An OUT strictly greater than the IN and in a later clock minute.\<close>

definition later_minute :: "time \<Rightarrow> time \<Rightarrow> bool" where
  "later_minute i out = (i < out \<and> time_to_minutes (Some i) < time_to_minutes (Some out))"

definition whole_minute :: "time \<Rightarrow> bool" where
  "whole_minute t = (valid_time t \<and> second t = 0 \<and> microsecond t = 0)"

section \<open>Python floats\<close>

text \<open>
  A Python float is an IEEE 754 binary64 value; it is modelled by the real number it
  denotes. An arithmetic result is the exact result rounded to the nearest double, a tie
  going to the even mantissa. Overflow to infinity and subnormal numbers are left out:
  they need magnitudes above \<open>10^308\<close> or below \<open>10^-307\<close>, far from any number of minutes.
\<close>

text \<open>The nearest integer, a tie going to the even one.\<close>

definition round_half_even :: "real \<Rightarrow> int" where
  "round_half_even y =
     (let f = \<lfloor>y\<rfloor>; r = y - of_int f
      in if r < 1 / 2 then f
         else if r > 1 / 2 then f + 1
         else if even f then f else f + 1)"

text \<open>
  The binary exponent of a non-zero number: the \<open>k\<close> with \<open>2^k \<le> |x| < 2^(k + 1)\<close>, read off the
  bit length of the integer part of \<open>|x|\<close>, or of \<open>1 / |x|\<close> when \<open>|x| < 1\<close>.
\<close>

definition binade :: "real \<Rightarrow> int" where
  "binade x =
     (if 1 \<le> \<bar>x\<bar> then bitlen \<lfloor>\<bar>x\<bar>\<rfloor> - 1 else - bitlen (\<lceil>1 / \<bar>x\<bar>\<rceil> - 1))"

text \<open>
  Rounding to a double: a mantissa of 53 bits, so the spacing of doubles around \<open>x\<close> is
  \<open>2^(binade x - 52)\<close>, and \<open>x\<close> goes to the nearest multiple of it.
\<close>

definition round_to_double :: "real \<Rightarrow> real" where
  "round_to_double x =
     (if x = 0 then 0
      else let ulp = 2 powi (binade x - 52)
           in of_int (round_half_even (x / ulp)) * ulp)"

text \<open>
  \<^verbatim>\<open>a / b\<close> on two integers: Python returns the correctly rounded quotient. Both calls of
  the source are guarded by a positive divisor, so \<^verbatim>\<open>ZeroDivisionError\<close> has no branch here.
\<close>

definition py_true_div :: "int \<Rightarrow> int \<Rightarrow> real" where
  "py_true_div a b = round_to_double (of_int a / of_int b)"

text \<open>\<^verbatim>\<open>x * y\<close> on floats (an integer factor such as 100 is a double exactly).\<close>

definition py_float_mul :: "real \<Rightarrow> real \<Rightarrow> real" where
  "py_float_mul x y = round_to_double (x * y)"

text \<open>
  \<^verbatim>\<open>round(x, 2)\<close>: Python rounds the exact value of the float \<open>x\<close> to two decimals, a tie
  going to the even digit, and returns the double nearest to that decimal number. On the
  integer 0 it returns 0.
\<close>

definition py_round2 :: "real \<Rightarrow> real" where
  "py_round2 x = round_to_double (of_int (round_half_even (x * 100)) / 100)"

section \<open>Compliance status\<close>

datatype compliance_status = RED | AMBER | GREEN

text \<open>
  The fields of \<^verbatim>\<open>config.Settings\<close> that the work policy uses, with the class defaults.
  A percentage is a Python float (or the integer 0), given as the real number it denotes;
  Python compares a float with an integer threshold exactly, as is done here.
\<close>

record settings =
  EXPECTED_HOURS_PER_DAY :: int
  WFO_DAYS_PER_WEEK :: int
  WFH_DAYS_PER_WEEK :: int
  THRESHOLD_RED :: int
  THRESHOLD_AMBER :: int

definition default_settings :: settings where
  "default_settings =
     \<lparr>EXPECTED_HOURS_PER_DAY = 8, WFO_DAYS_PER_WEEK = 3, WFH_DAYS_PER_WEEK = 2,
      THRESHOLD_RED = 70, THRESHOLD_AMBER = 90\<rparr>"

text \<open>\<^verbatim>\<open>config.get_status_color\<close>; the module's \<^verbatim>\<open>settings\<close> object is the first argument.\<close>

definition get_status_color :: "settings \<Rightarrow> real \<Rightarrow> compliance_status" where
  "get_status_color s percentage =
     (if percentage < of_int (THRESHOLD_RED s) then RED
      else if percentage \<le> of_int (THRESHOLD_AMBER s) then AMBER
      else GREEN)"

text \<open>\<^verbatim>\<open>TimeCalculator._get_status_color\<close>, with the two numbers written in the source.\<close>

definition calc_get_status_color :: "real \<Rightarrow> compliance_status" where
  "calc_get_status_color percentage =
     (if percentage < 70 then RED
      else if percentage \<le> 90 then AMBER
      else GREEN)"

text \<open>
  The per-day display of \<^verbatim>\<open>ReportGenerator.get_individual_report\<close>: the percentage of one
  stored day against the expected daily minutes, and the colour chosen for it.
\<close>

definition daily_compliance :: "int \<Rightarrow> int \<Rightarrow> real" where
  "daily_compliance total_minutes expected_daily =
     (if expected_daily > 0
      then py_float_mul (py_true_div total_minutes expected_daily) 100 else 0)"

definition daily_status_color :: "real \<Rightarrow> compliance_status" where
  "daily_status_color dc =
     (if dc \<ge> 90 then GREEN
      else if dc \<ge> 70 then AMBER
      else RED)"

text \<open>
  What \<^verbatim>\<open>routers.settings.get_dynamic_settings\<close> returns: the values an administrator has
  stored, \<open>min_hours_for_present\<close> in hours (6 when never set).
\<close>

record dynamic_settings =
  dyn_expected_hours_per_day :: int
  dyn_wfo_days_per_week :: int
  threshold_red :: int
  threshold_amber :: int
  min_hours_for_present :: int

section \<open>The weekly summary\<close>

record time_calculator =
  expected_hours_per_day :: int
  wfo_days_per_week :: int
  expected_daily_minutes :: int
  expected_weekly_minutes :: int

text \<open>\<^verbatim>\<open>TimeCalculator.__init__\<close>.\<close>

definition TimeCalculator :: "int \<Rightarrow> int \<Rightarrow> time_calculator" where
  "TimeCalculator hours_per_day days_per_week =
     \<lparr>expected_hours_per_day = hours_per_day,
      wfo_days_per_week = days_per_week,
      expected_daily_minutes = hours_per_day * 60,
      expected_weekly_minutes = days_per_week * hours_per_day * 60\<rparr>"

text \<open>The calculator the upload handler builds from the stored settings.\<close>

definition upload_calculator :: "dynamic_settings \<Rightarrow> time_calculator" where
  "upload_calculator ds =
     TimeCalculator (dyn_expected_hours_per_day ds) (dyn_wfo_days_per_week ds)"

record weekly_summary =
  week_start :: date
  week_end :: date
  week_total_office_minutes :: int
  wfo_days :: int
  expected_minutes :: int
  compliance_percentage :: real
  week_status :: compliance_status

text \<open>
  The inner loop over one employee's \<^verbatim>\<open>date_summaries.items()\<close>, a dictionary given as
  the list of its items, carrying \<^verbatim>\<open>total_minutes\<close> and \<^verbatim>\<open>wfo_days\<close>.
\<close>

fun week_days_loop ::
  "date \<Rightarrow> date \<Rightarrow> (date \<times> daily_summary) list \<Rightarrow> int \<times> int \<Rightarrow> int \<times> int" where
  "week_days_loop wk_start wk_end [] acc = acc"
| "week_days_loop wk_start wk_end ((day_date, summary) # rest) (total_minutes, days) =
     (if wk_start \<le> day_date \<and> day_date \<le> wk_end
      then week_days_loop wk_start wk_end rest
             (total_minutes + total_office_minutes summary,
              if status summary \<in> {PRESENT, PARTIAL} then days + 1 else days)
      else week_days_loop wk_start wk_end rest (total_minutes, days))"

text \<open>The body of the outer loop: the summary of one employee.\<close>

definition employee_week ::
  "time_calculator \<Rightarrow> date \<Rightarrow> date \<Rightarrow> (date \<times> daily_summary) list \<Rightarrow> weekly_summary" where
  "employee_week self wk_start wk_end date_summaries =
     (let (total_minutes, days) = week_days_loop wk_start wk_end date_summaries (0, 0);
          expected = days * expected_hours_per_day self * 60;
          compliance =
            (if expected > 0 then py_float_mul (py_true_div total_minutes expected) 100 else 0);
          st = calc_get_status_color compliance
      in \<lparr>week_start = wk_start,
          week_end = wk_end,
          week_total_office_minutes = total_minutes,
          wfo_days = days,
          expected_minutes = expected,
          compliance_percentage = py_round2 compliance,
          week_status = st\<rparr>)"

text \<open>
  The outer loop over \<^verbatim>\<open>daily_summaries.items()\<close>, storing each employee's summary in the
  dictionary \<^verbatim>\<open>weekly\<close> under the employee code.
\<close>

fun weekly_loop ::
  "time_calculator \<Rightarrow> date \<Rightarrow> date \<Rightarrow> (string \<times> (date \<times> daily_summary) list) list \<Rightarrow>
   (string \<rightharpoonup> weekly_summary) \<Rightarrow> (string \<rightharpoonup> weekly_summary)" where
  "weekly_loop self wk_start wk_end [] weekly = weekly"
| "weekly_loop self wk_start wk_end ((emp_code, date_summaries) # rest) weekly =
     weekly_loop self wk_start wk_end rest
       (weekly(emp_code \<mapsto> employee_week self wk_start wk_end date_summaries))"

text \<open>
  \<^verbatim>\<open>calculate_weekly_summary\<close>. Its fourth parameter, \<^verbatim>\<open>employee_requirements\<close>, is never
  read after being defaulted, and is left out.
\<close>

definition calculate_weekly_summary ::
  "time_calculator \<Rightarrow> (string \<times> (date \<times> daily_summary) list) list \<Rightarrow> date \<Rightarrow> date \<Rightarrow>
   (string \<rightharpoonup> weekly_summary)" where
  "calculate_weekly_summary self daily_summaries wk_start wk_end =
     weekly_loop self wk_start wk_end daily_summaries Map.empty"

section \<open>Weeks\<close>

datatype py_error = OverflowError

definition MAXORDINAL :: int where
  "MAXORDINAL = 3652059"

definition valid_date :: "date \<Rightarrow> bool" where
  "valid_date d = (1 \<le> d \<and> d \<le> MAXORDINAL)"

text \<open>
  \<^verbatim>\<open>date + timedelta(days=n)\<close> (and \<^verbatim>\<open>date - timedelta(days=n)\<close> with \<open>- n\<close>): the ordinal is
  shifted, and a result outside \<^verbatim>\<open>date.min .. date.max\<close> raises \<^verbatim>\<open>OverflowError\<close>.
\<close>

definition date_add_days :: "date \<Rightarrow> int \<Rightarrow> py_error + date" where
  "date_add_days d n =
     (let ordinal = d + n
      in if 0 < ordinal \<and> ordinal \<le> MAXORDINAL then Inr ordinal else Inl OverflowError)"

text \<open>\<^verbatim>\<open>date.weekday()\<close>: Monday is 0.\<close>

definition weekday :: "date \<Rightarrow> int" where
  "weekday d = (d + 6) mod 7"

definition get_week_bounds :: "date \<Rightarrow> py_error + (date \<times> date)" where
  "get_week_bounds d =
     (case date_add_days d (- weekday d) of
        Inl e \<Rightarrow> Inl e
      | Inr monday \<Rightarrow>
          (case date_add_days monday 6 of
             Inl e \<Rightarrow> Inl e
           | Inr sunday \<Rightarrow> Inr (monday, sunday)))"

fun weeks_loop :: "date list \<Rightarrow> (date \<times> date) set \<Rightarrow> py_error + (date \<times> date) set" where
  "weeks_loop [] weeks = Inr weeks"
| "weeks_loop (d # ds) weeks =
     (case get_week_bounds d of
        Inl e \<Rightarrow> Inl e
      | Inr week_bounds \<Rightarrow> weeks_loop ds (insert week_bounds weeks))"

text \<open>\<^verbatim>\<open>sorted(list(weeks))\<close>: the elements of the set in ascending order of the pairs.\<close>

definition get_all_weeks :: "date list \<Rightarrow> py_error + (date \<times> date) list" where
  "get_all_weeks dates =
     (case weeks_loop dates {} of
        Inl e \<Rightarrow> Inl e
      | Inr weeks \<Rightarrow> Inr (sorted_list_of_set weeks))"

text \<open>
  The ordinal of a calendar date, as Python's \<^verbatim>\<open>date(y, m, d).toordinal()\<close> computes it;
  used to name concrete dates.
\<close>

definition is_leap :: "int \<Rightarrow> bool" where
  "is_leap y = (y mod 4 = 0 \<and> (y mod 100 \<noteq> 0 \<or> y mod 400 = 0))"

definition days_before_year :: "int \<Rightarrow> int" where
  "days_before_year year =
     (let y = year - 1 in y * 365 + y div 4 - y div 100 + y div 400)"

definition days_before_month :: "int \<Rightarrow> nat \<Rightarrow> int" where
  "days_before_month year month =
     [0, 0, 31, 59, 90, 120, 151, 181, 212, 243, 273, 304, 334] ! (month mod 13)
       + (if month > 2 \<and> is_leap year then 1 else 0)"

definition ymd :: "int \<Rightarrow> nat \<Rightarrow> int \<Rightarrow> date" where
  "ymd year month day = days_before_year year + days_before_month year month + day"

section \<open>Auxiliary definitions for the proofs\<close>

text \<open>
  The OUT times whose index is not in \<open>used\<close>, in order: what the scan over
  \<^verbatim>\<open>enumerate(sorted_outs)\<close> can still take.
\<close>

definition unused :: "(nat \<times> time) list \<Rightarrow> nat set \<Rightarrow> time list" where
  "unused eouts used = map snd (filter (\<lambda>p. fst p \<notin> used) eouts)"

text \<open>
  The device total of the first record that has one, and the remark of the last record
  whose remark is not empty.
\<close>

fun first_total :: "punch_record list \<Rightarrow> time option" where
  "first_total [] = None"
| "first_total (r # rs) = (case total_time r of None \<Rightarrow> first_total rs | Some t \<Rightarrow> Some t)"

fun last_remark :: "punch_record list \<Rightarrow> string option" where
  "last_remark [] = None"
| "last_remark (r # rs) =
     (case last_remark rs of
        None \<Rightarrow> (if truthy_str (remark r) then remark r else None)
      | Some s \<Rightarrow> Some s)"

text \<open>
  The Monday-to-Sunday pair around a date, and whether both of its ends are dates Python
  can represent.
\<close>

definition week_of :: "date \<Rightarrow> date \<times> date" where
  "week_of d = (d - weekday d, d - weekday d + 6)"

definition week_fits :: "date \<Rightarrow> bool" where
  "week_fits d = (0 < d - weekday d \<and> d - weekday d + 6 \<le> MAXORDINAL)"

section \<open>Pairing: the index set against the list of unused OUT times\<close>

lemma find_out_positive:
  "find_out in_t eouts used = Some (k, d) \<Longrightarrow> 0 < d"
  by (induction in_t eouts used rule: find_out.induct) (auto simp: Let_def split: if_splits)

lemma find_out_index:
  "find_out in_t eouts used = Some (k, d) \<Longrightarrow> k \<in> fst ` set eouts \<and> k \<notin> used"
  by (induction in_t eouts used rule: find_out.induct) (auto simp: Let_def split: if_splits)

lemma pairs_total_loop_mono:
  "fst st \<le> fst (pairs_total_loop ins eouts st)"
proof (induction ins arbitrary: st)
  case Nil
  show ?case by simp
next
  case (Cons in_t ins)
  obtain tot used where st: "st = (tot, used)" by (cases st)
  show ?case
  proof (cases "find_out in_t eouts used")
    case None
    with Cons.IH [of "(tot, used)"] st show ?thesis by simp
  next
    case (Some kd)
    obtain k d where kd: "kd = (k, d)" by (cases kd)
    from Some kd have "0 < d" using find_out_positive by blast
    moreover have "fst (tot + d, insert k used) \<le> fst (pairs_total_loop ins eouts (tot + d, insert k used))"
      by (rule Cons.IH)
    ultimately show ?thesis using Some kd st by simp
  qed
qed

lemma unused_insert_fresh:
  "k \<notin> fst ` set eouts \<Longrightarrow> unused eouts (insert k used) = unused eouts used"
  by (induction eouts) (auto simp: unused_def)

lemma find_out_None:
  "find_out in_t eouts used = None \<Longrightarrow> take_first (later_minute in_t) (unused eouts used) = None"
  by (induction in_t eouts used rule: find_out.induct)
     (auto simp: Let_def unused_def later_minute_def split: if_splits)

lemma find_out_Some:
  "distinct (map fst eouts) \<Longrightarrow> find_out in_t eouts used = Some (k, d) \<Longrightarrow>
   \<exists>out. take_first (later_minute in_t) (unused eouts used) = Some (out, unused eouts (insert k used))
      \<and> d = time_to_minutes (Some out) - time_to_minutes (Some in_t)"
proof (induction in_t eouts used rule: find_out.induct)
  case (1 in_t used_outs)
  then show ?case by simp
next
  case (2 in_t i out_t rest used_outs)
  have dist: "distinct (map fst rest)" and fresh: "i \<notin> fst ` set rest"
    using "2.prems"(1) by auto
  show ?case
  proof (cases "i \<in> used_outs")
    case True
    with "2.prems" have "find_out in_t rest used_outs = Some (k, d)" by simp
    from "2.IH"(1) [OF True dist this] True show ?thesis by (simp add: unused_def)
  next
    case False
    show ?thesis
    proof (cases "later_minute in_t out_t")
      case True
      with False "2.prems"(2) have kd: "k = i" "d = time_to_minutes (Some out_t) - time_to_minutes (Some in_t)"
        by (auto simp: later_minute_def Let_def split: if_splits)
      have "unused ((i, out_t) # rest) (insert i used_outs) = unused rest used_outs"
        using unused_insert_fresh [OF fresh] by (simp add: unused_def)
      with True False kd show ?thesis by (simp add: unused_def)
    next
      case nl: False
      with False "2.prems"(2) have rec: "find_out in_t rest used_outs = Some (k, d)"
        by (auto simp: later_minute_def Let_def split: if_splits)
      have "\<exists>out. take_first (later_minute in_t) (unused rest used_outs) = Some (out, unused rest (insert k used_outs))
        \<and> d = time_to_minutes (Some out) - time_to_minutes (Some in_t)"
      proof (cases "out_t > in_t")
        case True
        with nl have "\<not> time_to_minutes (Some out_t) - time_to_minutes (Some in_t) > 0"
          by (auto simp: later_minute_def)
        from "2.IH"(2) [OF False True refl refl refl this dist rec] show ?thesis .
      next
        case ngt: False
        from "2.IH"(3) [OF False ngt dist rec] show ?thesis .
      qed
      then obtain out where out: "take_first (later_minute in_t) (unused rest used_outs) = Some (out, unused rest (insert k used_outs))"
        "d = time_to_minutes (Some out) - time_to_minutes (Some in_t)" by blast
      from find_out_index [OF rec] fresh have "k \<noteq> i" by auto
      with False nl out show ?thesis by (simp add: unused_def)
    qed
  qed
qed

lemma greedy_total_no_outs: "greedy_total binds ins [] = 0"
  by (induction ins) auto

lemma pairs_total_loop_greedy:
  "distinct (map fst eouts) \<Longrightarrow>
   fst (pairs_total_loop ins eouts (tot, used)) =
     tot + greedy_total later_minute ins (unused eouts used)"
proof (induction ins arbitrary: tot used)
  case Nil
  show ?case by simp
next
  case (Cons in_t ins)
  show ?case
  proof (cases "find_out in_t eouts used")
    case None
    from find_out_None [OF None] None Cons.IH [OF Cons.prems] show ?thesis by simp
  next
    case (Some kd)
    obtain k d where kd: "kd = (k, d)" by (cases kd)
    from find_out_Some [OF Cons.prems] Some kd obtain out where
      "take_first (later_minute in_t) (unused eouts used) = Some (out, unused eouts (insert k used))"
      "d = time_to_minutes (Some out) - time_to_minutes (Some in_t)" by blast
    with Some kd Cons.IH [OF Cons.prems, of "tot + d" "insert k used"] show ?thesis by simp
  qed
qed

lemma unused_enumerate: "unused (enumerate n xs) {} = xs"
  by (simp add: unused_def map_snd_enumerate del: enumerate_eq_zip)

lemma calculate_from_pairs_greedy:
  "calculate_from_pairs ins outs = greedy_total later_minute (sort ins) (sort outs)"
proof (cases "ins = [] \<or> outs = []")
  case True
  then show ?thesis
    by (auto simp: calculate_from_pairs_def greedy_total_no_outs)
next
  case False
  have "distinct (map fst (enumerate 0 (sort outs)))"
    by (simp add: map_fst_enumerate del: enumerate_eq_zip)
  from pairs_total_loop_greedy [OF this, of "sort ins" 0 "{}"] False show ?thesis
    by (simp add: calculate_from_pairs_def unused_enumerate del: enumerate_eq_zip)
qed

lemma take_first_subset:
  "take_first P xs = Some (y, rest) \<Longrightarrow> set rest \<subseteq> set xs"
  by (induction xs arbitrary: y rest) (auto split: if_splits option.splits)

lemma take_first_cong:
  "(\<And>x. x \<in> set xs \<Longrightarrow> P x = Q x) \<Longrightarrow> take_first P xs = take_first Q xs"
  by (induction xs) auto

lemma greedy_total_cong:
  "(\<And>i out. i \<in> set ins \<Longrightarrow> out \<in> set outs \<Longrightarrow> P i out = Q i out) \<Longrightarrow>
   greedy_total P ins outs = greedy_total Q ins outs"
proof (induction ins arbitrary: outs)
  case Nil
  show ?case by simp
next
  case (Cons i ins)
  have tf: "take_first (P i) outs = take_first (Q i) outs"
    by (rule take_first_cong) (simp add: Cons.prems)
  show ?case
  proof (cases "take_first (Q i) outs")
    case None
    with tf Cons.IH [of outs] Cons.prems show ?thesis by simp
  next
    case (Some yr)
    obtain y rest where yr: "yr = (y, rest)" by (cases yr)
    from Some yr have "take_first (Q i) outs = Some (y, rest)" by simp
    then have "set rest \<subseteq> set outs" by (rule take_first_subset)
    then have "greedy_total P ins rest = greedy_total Q ins rest"
      using Cons.prems by (intro Cons.IH) auto
    with tf Some yr show ?thesis by simp
  qed
qed

lemma whole_minute_later:
  "whole_minute i \<Longrightarrow> whole_minute out \<Longrightarrow> later_minute i out = (i < out)"
  by (cases i, cases out)
     (auto simp: whole_minute_def valid_time_def later_minute_def less_time_def time_key_def)

section \<open>What the loop over a day's records collects\<close>

lemma day_step_in_times:
  "in_times (day_step r v) = in_times v @ (case in_time r of None \<Rightarrow> [] | Some t \<Rightarrow> [t])"
  by (simp add: day_step_def Let_def split: option.splits)

lemma day_step_out_times:
  "out_times (day_step r v) = out_times v @ (case out_time r of None \<Rightarrow> [] | Some t \<Rightarrow> [t])"
  by (simp add: day_step_def Let_def split: option.splits)

lemma day_step_total:
  "total_from_device (day_step r v) =
     (case total_from_device v of None \<Rightarrow> total_time r | Some t \<Rightarrow> Some t)"
  by (simp add: day_step_def Let_def split: option.splits)

lemma day_step_remark:
  "remark_var (day_step r v) = (if truthy_str (remark r) then remark r else remark_var v)"
  by (simp add: day_step_def Let_def split: option.splits)

lemma day_loop_in_times:
  "in_times (day_loop rs v) = in_times v @ List.map_filter in_time rs"
  by (induction rs arbitrary: v)
     (auto simp: day_step_in_times List.map_filter_simps split: option.splits)

lemma day_loop_out_times:
  "out_times (day_loop rs v) = out_times v @ List.map_filter out_time rs"
  by (induction rs arbitrary: v)
     (auto simp: day_step_out_times List.map_filter_simps split: option.splits)

lemma day_loop_total:
  "total_from_device (day_loop rs v) =
     (case total_from_device v of None \<Rightarrow> first_total rs | Some t \<Rightarrow> Some t)"
  by (induction rs arbitrary: v)
     (auto simp: day_step_total split: option.splits)

lemma day_loop_remark:
  "remark_var (day_loop rs v) =
     (case last_remark rs of None \<Rightarrow> remark_var v | Some s \<Rightarrow> Some s)"
  by (induction rs arbitrary: v)
     (auto simp: day_step_remark truthy_str_def split: option.splits)

lemma day_summary_fields:
  "total_office_minutes (calculate_day_summary rs) =
     (if first_total rs \<noteq> None then time_to_minutes (first_total rs)
      else calculate_from_pairs (List.map_filter in_time rs) (List.map_filter out_time rs))"
  "status (calculate_day_summary rs) =
     (if total_office_minutes (calculate_day_summary rs) \<ge> 360 then PRESENT else ABSENT)"
  "first_in (calculate_day_summary rs) = py_min (List.map_filter in_time rs)"
  "last_out (calculate_day_summary rs) = py_max (List.map_filter out_time rs)"
  "in_out_pairs (calculate_day_summary rs) =
     (let pairs = create_pairs (List.map_filter in_time rs) (List.map_filter out_time rs)
      in if pairs = [] then None else Some pairs)"
  "day_remark (calculate_day_summary rs) = last_remark rs"
  by (simp_all add: calculate_day_summary_def Let_def day_loop_in_times day_loop_out_times
        day_loop_total day_loop_remark split: option.splits)

lemma first_total_None: "first_total rs = None \<longleftrightarrow> (\<forall>r\<in>set rs. total_time r = None)"
  by (induction rs) (auto split: option.splits)

lemma first_total_append:
  "\<forall>r\<in>set before. total_time r = None \<Longrightarrow> total_time r = Some t \<Longrightarrow>
   first_total (before @ r # after) = Some t"
  by (induction before) auto

lemma first_total_mem:
  "first_total rs = Some t \<Longrightarrow> \<exists>r\<in>set rs. total_time r = Some t"
  by (induction rs) (auto split: option.splits)

lemma last_remark_mem:
  "last_remark rs = Some s \<Longrightarrow> \<exists>r\<in>set rs. remark r = Some s \<and> truthy_str (remark r)"
  by (induction rs) (auto split: option.splits if_splits)

lemma last_remark_None: "last_remark rs = None \<longleftrightarrow> (\<forall>r\<in>set rs. \<not> truthy_str (remark r))"
  by (induction rs) (auto split: option.splits simp: truthy_str_def)

lemma map_filter_mset:
  "mset rs = mset rs' \<Longrightarrow> mset (List.map_filter f rs) = mset (List.map_filter f rs')"
proof -
  assume eq: "mset rs = mset rs'"
  have "mset (List.map_filter f rs) =
          image_mset (the \<circ> f) (filter_mset (\<lambda>x. f x \<noteq> None) (mset rs))" for rs :: "'a list"
    by (simp add: List.map_filter_def)
  then show ?thesis using eq by simp
qed

lemma sort_mset_eq:
  fixes xs ys :: "time list"
  shows "mset xs = mset ys \<Longrightarrow> sort xs = sort ys"
  by (rule properties_for_sort) simp_all

lemma py_min_set: "py_min xs = (if xs = [] then None else Some (Min (set xs)))"
  by (cases xs) (simp_all add: py_min_def Min.set_eq_fold [symmetric])

lemma py_max_set: "py_max xs = (if xs = [] then None else Some (Max (set xs)))"
  by (cases xs) (simp_all add: py_max_def Max.set_eq_fold [symmetric])

lemma py_min_mset: "mset xs = mset ys \<Longrightarrow> py_min xs = py_min ys"
  by (auto simp: py_min_set dest: mset_eq_setD)

lemma py_max_mset: "mset xs = mset ys \<Longrightarrow> py_max xs = py_max ys"
  by (auto simp: py_max_set dest: mset_eq_setD)

lemma create_pairs_mset:
  "mset ins = mset ins' \<Longrightarrow> mset outs = mset outs' \<Longrightarrow> create_pairs ins outs = create_pairs ins' outs'"
  by (simp add: create_pairs_def sort_mset_eq [of ins ins'] sort_mset_eq [of outs outs'])

lemma calculate_from_pairs_mset:
  "mset ins = mset ins' \<Longrightarrow> mset outs = mset outs' \<Longrightarrow>
   calculate_from_pairs ins outs = calculate_from_pairs ins' outs'"
  by (simp add: calculate_from_pairs_greedy sort_mset_eq [of ins ins'] sort_mset_eq [of outs outs'])

lemma first_total_unique:
  assumes "mset rs = mset rs'"
    and "\<forall>a\<in>set rs. \<forall>b\<in>set rs. total_time a \<noteq> None \<longrightarrow> total_time b \<noteq> None \<longrightarrow> total_time a = total_time b"
  shows "first_total rs = first_total rs'"
proof -
  have set_eq: "set rs = set rs'" using assms(1) by (rule mset_eq_setD)
  show ?thesis
  proof (cases "first_total rs")
    case None
    then have "\<forall>r\<in>set rs'. total_time r = None" using set_eq by (simp add: first_total_None)
    then have "first_total rs' = None" by (simp add: first_total_None)
    with None show ?thesis by simp
  next
    case (Some t)
    then obtain a where a: "a \<in> set rs" "total_time a = Some t" using first_total_mem by blast
    have "first_total rs' \<noteq> None" using a set_eq by (auto simp: first_total_None)
    then obtain t' where t': "first_total rs' = Some t'" by auto
    then obtain b where b: "b \<in> set rs'" "total_time b = Some t'" using first_total_mem by blast
    from a b set_eq assms(2) have "t = t'" by fastforce
    with Some t' show ?thesis by simp
  qed
qed

lemma last_remark_unique:
  assumes "mset rs = mset rs'"
    and "\<forall>a\<in>set rs. \<forall>b\<in>set rs. truthy_str (remark a) \<longrightarrow> truthy_str (remark b) \<longrightarrow> remark a = remark b"
  shows "last_remark rs = last_remark rs'"
proof -
  have set_eq: "set rs = set rs'" using assms(1) by (rule mset_eq_setD)
  show ?thesis
  proof (cases "last_remark rs")
    case None
    then have "\<forall>r\<in>set rs'. \<not> truthy_str (remark r)" using set_eq by (simp add: last_remark_None)
    then have "last_remark rs' = None" by (simp add: last_remark_None)
    with None show ?thesis by simp
  next
    case (Some s)
    then obtain a where a: "a \<in> set rs" "remark a = Some s" "truthy_str (remark a)"
      using last_remark_mem by blast
    have "a \<in> set rs' \<and> truthy_str (remark a)" using a set_eq by simp
    then have "last_remark rs' \<noteq> None" unfolding last_remark_None by blast
    then obtain s' where s': "last_remark rs' = Some s'" by auto
    then obtain b where b: "b \<in> set rs'" "remark b = Some s'" "truthy_str (remark b)"
      using last_remark_mem by blast
    from a b set_eq assms(2) have "s = s'" by fastforce
    with Some s' show ?thesis by simp
  qed
qed

section \<open>Evaluation of concrete inputs\<close>

lemmas time_eval = less_time_def less_eq_time_def time_key_def
lemmas float_eval = py_true_div_def py_float_mul_def py_round2_def round_to_double_def
  binade_def compute_bitlen power_int_def power_one_over round_half_even_def Let_def

lemmas text_eval = strftime_HM_def format_duration_def str_int_def str_nat.simps digit_char_def

section \<open>Claims about pairing\<close>

text \<open>
  C9. A candidate OUT whose computed duration is not positive is passed over: the scan goes
  on as if it were not there. Every amount the loop adds is positive, so the running total
  never decreases, and the pairing total is non-negative for all IN and OUT times.
\<close>

theorem pairing_total_nonnegative:
  "0 \<le> calculate_from_pairs ins outs
   \<and> tot \<le> fst (pairs_total_loop sorted_ins eouts (tot, used))
   \<and> (time_to_minutes (Some out_t) - time_to_minutes (Some in_t) \<le> 0 \<longrightarrow>
        find_out in_t ((i, out_t) # rest) used = find_out in_t rest used)
   \<and> (find_out in_t eouts used = Some (k, d) \<longrightarrow> 0 < d)"
proof -
  have "fst (0::int, {}::nat set) \<le> fst (pairs_total_loop (sort ins) (enumerate 0 (sort outs)) (0, {}))"
    by (rule pairs_total_loop_mono)
  then have "0 \<le> calculate_from_pairs ins outs"
    by (simp add: calculate_from_pairs_def del: enumerate_eq_zip)
  moreover have "tot \<le> fst (pairs_total_loop sorted_ins eouts (tot, used))"
    using pairs_total_loop_mono [of "(tot, used)" sorted_ins eouts] by simp
  moreover have "time_to_minutes (Some out_t) - time_to_minutes (Some in_t) \<le> 0 \<longrightarrow>
        find_out in_t ((i, out_t) # rest) used = find_out in_t rest used"
    by (simp add: Let_def)
  moreover have "find_out in_t eouts used = Some (k, d) \<longrightarrow> 0 < d"
    using find_out_positive by blast
  ultimately show ?thesis by blast
qed

text \<open>
  At IN 09:00:10 with OUT 09:00:50 and 10:00:00, the first OUT is later by seconds only
  (duration 0), is passed over, and the second one is taken: 60 minutes.
\<close>

theorem pairing_total_nonnegative_witness:
  "0 \<le> calculate_from_pairs [Time 9 0 10 0] [Time 9 0 50 0, Time 10 0 0 0]
   \<and> calculate_from_pairs [Time 9 0 10 0] [Time 9 0 50 0, Time 10 0 0 0] = 60
   \<and> time_to_minutes (Some (Time 9 0 50 0)) - time_to_minutes (Some (Time 9 0 10 0)) = 0
   \<and> find_out (Time 9 0 10 0) [(0, Time 9 0 50 0), (1, Time 10 0 0 0)] {}
        = find_out (Time 9 0 10 0) [(1, Time 10 0 0 0)] {}
   \<and> find_out (Time 9 0 10 0) [(0, Time 9 0 50 0), (1, Time 10 0 0 0)] {} = Some (1, 60)"
  using pairing_total_nonnegative [where ins = "[Time 9 0 10 0]"
      and outs = "[Time 9 0 50 0, Time 10 0 0 0]" and tot = 0 and sorted_ins = "[]"
      and used = "{}" and out_t = "Time 9 0 50 0" and in_t = "Time 9 0 10 0" and i = 0
      and rest = "[(1, Time 10 0 0 0)]" and eouts = "[(0, Time 9 0 50 0), (1, Time 10 0 0 0)]"
      and k = 1 and d = 60]
  by (simp add: calculate_from_pairs_def time_eval)

text \<open>
  C1, as amended. The pairing total is the greedy result over the ascending IN and OUT
  times in which each IN is bound to the earliest unused OUT that is strictly greater
  and in a later clock minute; an IN with no such OUT adds nothing, and an OUT later by
  seconds only is passed over and stays available. When every time is a whole minute this
  is the rule of the specification (earliest unused OUT strictly greater than the IN).
  With no device total on any record, the day's total office minutes is this pairing
  total of the records' IN and OUT times.
\<close>

theorem day_total_greedy_pairing:
  "calculate_from_pairs ins outs = greedy_total later_minute (sort ins) (sort outs)
   \<and> ((\<forall>t \<in> set ins \<union> set outs. whole_minute t) \<longrightarrow>
        calculate_from_pairs ins outs = spec_pairing_total ins outs)
   \<and> ((\<forall>r \<in> set day_records. total_time r = None) \<longrightarrow>
        total_office_minutes (calculate_day_summary day_records) =
          calculate_from_pairs (List.map_filter in_time day_records)
                               (List.map_filter out_time day_records))"
proof -
  have a: "calculate_from_pairs ins outs = greedy_total later_minute (sort ins) (sort outs)"
    by (rule calculate_from_pairs_greedy)
  have b: "calculate_from_pairs ins outs = spec_pairing_total ins outs"
    if wm: "\<forall>t \<in> set ins \<union> set outs. whole_minute t"
  proof -
    have "greedy_total later_minute (sort ins) (sort outs) =
          greedy_total (\<lambda>i out. i < out) (sort ins) (sort outs)"
      by (rule greedy_total_cong) (use wm in \<open>simp add: whole_minute_later\<close>)
    with a show ?thesis by (simp add: spec_pairing_total_def)
  qed
  have c: "total_office_minutes (calculate_day_summary day_records) =
          calculate_from_pairs (List.map_filter in_time day_records)
                               (List.map_filter out_time day_records)"
    if "\<forall>r \<in> set day_records. total_time r = None"
    using that by (simp add: day_summary_fields(1) first_total_None)
  from a b c show ?thesis by blast
qed

text \<open>
  IN 09:00 and 09:30, OUT 12:00 and 13:00: the pairs are (09:00, 12:00) and (09:30, 13:00),
  390 minutes in all.
\<close>

theorem day_total_greedy_pairing_witness:
  "whole_minute (Time 9 0 0 0) \<and> whole_minute (Time 9 30 0 0)
   \<and> whole_minute (Time 12 0 0 0) \<and> whole_minute (Time 13 0 0 0)
   \<and> calculate_from_pairs [Time 9 0 0 0, Time 9 30 0 0] [Time 12 0 0 0, Time 13 0 0 0] = 390
   \<and> spec_pairing_total [Time 9 0 0 0, Time 9 30 0 0] [Time 12 0 0 0, Time 13 0 0 0] = 390
   \<and> total_office_minutes (calculate_day_summary
        [\<lparr>code = ''E1'', date = 739021, in_time = Some (Time 9 30 0 0),
          out_time = Some (Time 13 0 0 0), total_time = None, remark = None\<rparr>,
         \<lparr>code = ''E1'', date = 739021, in_time = Some (Time 9 0 0 0),
          out_time = Some (Time 12 0 0 0), total_time = None, remark = None\<rparr>]) = 390
   \<and> in_out_pairs (calculate_day_summary
        [\<lparr>code = ''E1'', date = 739021, in_time = Some (Time 9 30 0 0),
          out_time = Some (Time 13 0 0 0), total_time = None, remark = None\<rparr>,
         \<lparr>code = ''E1'', date = 739021, in_time = Some (Time 9 0 0 0),
          out_time = Some (Time 12 0 0 0), total_time = None, remark = None\<rparr>]) =
       Some [\<lparr>pair_in = ''09:00'', pair_out = Some ''12:00'', pair_duration = Some ''3h 0m''\<rparr>,
             \<lparr>pair_in = ''09:30'', pair_out = Some ''13:00'', pair_duration = Some ''3h 30m''\<rparr>]"
  using day_total_greedy_pairing [where ins = "[Time 9 0 0 0, Time 9 30 0 0]"
        and outs = "[Time 12 0 0 0, Time 13 0 0 0]" and day_records =
        "[\<lparr>code = ''E1'', date = 739021, in_time = Some (Time 9 30 0 0),
          out_time = Some (Time 13 0 0 0), total_time = None, remark = None\<rparr>,
         \<lparr>code = ''E1'', date = 739021, in_time = Some (Time 9 0 0 0),
          out_time = Some (Time 12 0 0 0), total_time = None, remark = None\<rparr>]"]
  by (simp add: whole_minute_def valid_time_def spec_pairing_total_def later_minute_def
        List.map_filter_simps day_summary_fields create_pairs_def calculate_from_pairs_def
        time_eval text_eval)

text \<open>
  C1 as stated fails when times carry seconds: IN 09:00:10 with OUT 09:00:50 and 10:00:00.
  The specification's rule binds the IN to 09:00:50, zero minutes; the code passes that
  OUT over and binds 10:00:00, 60 minutes.
\<close>

theorem spec_pairing_counterexample:
  "calculate_from_pairs [Time 9 0 10 0] [Time 9 0 50 0, Time 10 0 0 0] = 60
   \<and> spec_pairing_total [Time 9 0 10 0] [Time 9 0 50 0, Time 10 0 0 0] = 0"
  by (simp add: calculate_from_pairs_def spec_pairing_total_def time_eval)

section \<open>Claims about the daily summary\<close>

text \<open>
  C5. When a record of the day carries a device total, the first such record decides:
  the day's total office minutes is that total in minutes (hour times 60 plus minute),
  whatever the IN and OUT times are and whatever totals later records carry. The pairs
  for display are computed from the IN and OUT times all the same.
\<close>

theorem first_device_total_wins:
  assumes "\<forall>r' \<in> set before. total_time r' = None" and "total_time r = Some t"
  shows "total_office_minutes (calculate_day_summary (before @ r # after)) =
           int (hour t) * 60 + int (minute t)
         \<and> in_out_pairs (calculate_day_summary (before @ r # after)) =
           (let pairs = create_pairs (List.map_filter in_time (before @ r # after))
                                     (List.map_filter out_time (before @ r # after))
            in if pairs = [] then None else Some pairs)"
proof -
  have "first_total (before @ r # after) = Some t"
    using assms by (rule first_total_append)
  then show ?thesis
    by (simp add: day_summary_fields(1,5))
qed

text \<open>
  Three records: IN 09:00 and OUT 10:00 without a total, then a device total 08:30, then
  a device total 05:00. The day has 510 minutes, not the 60 of the pairing and not 300;
  the pair (09:00, 10:00) is still displayed.
\<close>

theorem first_device_total_wins_witness:
  "total_time \<lparr>code = ''E1'', date = 739021, in_time = Some (Time 9 0 0 0),
       out_time = Some (Time 10 0 0 0), total_time = None, remark = None\<rparr> = None
   \<and> total_office_minutes (calculate_day_summary
       [\<lparr>code = ''E1'', date = 739021, in_time = Some (Time 9 0 0 0),
          out_time = Some (Time 10 0 0 0), total_time = None, remark = None\<rparr>,
        \<lparr>code = ''E1'', date = 739021, in_time = None, out_time = None,
          total_time = Some (Time 8 30 0 0), remark = None\<rparr>,
        \<lparr>code = ''E1'', date = 739021, in_time = None, out_time = None,
          total_time = Some (Time 5 0 0 0), remark = None\<rparr>]) = 510
   \<and> in_out_pairs (calculate_day_summary
       [\<lparr>code = ''E1'', date = 739021, in_time = Some (Time 9 0 0 0),
          out_time = Some (Time 10 0 0 0), total_time = None, remark = None\<rparr>,
        \<lparr>code = ''E1'', date = 739021, in_time = None, out_time = None,
          total_time = Some (Time 8 30 0 0), remark = None\<rparr>,
        \<lparr>code = ''E1'', date = 739021, in_time = None, out_time = None,
          total_time = Some (Time 5 0 0 0), remark = None\<rparr>]) =
       Some [\<lparr>pair_in = ''09:00'', pair_out = Some ''10:00'', pair_duration = Some ''1h 0m''\<rparr>]
   \<and> calculate_from_pairs [Time 9 0 0 0] [Time 10 0 0 0] = 60"
  using first_device_total_wins [where before =
        "[\<lparr>code = ''E1'', date = 739021, in_time = Some (Time 9 0 0 0),
          out_time = Some (Time 10 0 0 0), total_time = None, remark = None\<rparr>]"
      and r = "\<lparr>code = ''E1'', date = 739021, in_time = None, out_time = None,
          total_time = Some (Time 8 30 0 0), remark = None\<rparr>"
      and t = "Time 8 30 0 0"
      and after = "[\<lparr>code = ''E1'', date = 739021, in_time = None, out_time = None,
          total_time = Some (Time 5 0 0 0), remark = None\<rparr>]"]
  by (simp add: List.map_filter_simps create_pairs_def calculate_from_pairs_def
        time_eval text_eval)

text \<open>
  C6, as amended. For two record lists that are permutations of each other, first-in,
  last-out and the displayed pairs are equal. Total office minutes and status are equal
  when the records carry at most one distinct device total, the remark is equal when they
  carry at most one distinct non-empty remark, and under both conditions the whole
  summary is equal.
\<close>

theorem day_summary_permutation:
  assumes "mset rs = mset rs'"
  shows "first_in (calculate_day_summary rs) = first_in (calculate_day_summary rs')
     \<and> last_out (calculate_day_summary rs) = last_out (calculate_day_summary rs')
     \<and> in_out_pairs (calculate_day_summary rs) = in_out_pairs (calculate_day_summary rs')
     \<and> ((\<forall>a \<in> set rs. \<forall>b \<in> set rs. total_time a \<noteq> None \<longrightarrow> total_time b \<noteq> None \<longrightarrow>
            total_time a = total_time b) \<longrightarrow>
          total_office_minutes (calculate_day_summary rs) =
            total_office_minutes (calculate_day_summary rs')
          \<and> status (calculate_day_summary rs) = status (calculate_day_summary rs'))
     \<and> ((\<forall>a \<in> set rs. \<forall>b \<in> set rs. truthy_str (remark a) \<longrightarrow> truthy_str (remark b) \<longrightarrow>
            remark a = remark b) \<longrightarrow>
          day_remark (calculate_day_summary rs) = day_remark (calculate_day_summary rs'))
     \<and> ((\<forall>a \<in> set rs. \<forall>b \<in> set rs. total_time a \<noteq> None \<longrightarrow> total_time b \<noteq> None \<longrightarrow>
            total_time a = total_time b) \<and>
         (\<forall>a \<in> set rs. \<forall>b \<in> set rs. truthy_str (remark a) \<longrightarrow> truthy_str (remark b) \<longrightarrow>
            remark a = remark b) \<longrightarrow>
          calculate_day_summary rs = calculate_day_summary rs')"
proof -
  have ins: "mset (List.map_filter in_time rs) = mset (List.map_filter in_time rs')"
    and outs: "mset (List.map_filter out_time rs) = mset (List.map_filter out_time rs')"
    using assms by (rule map_filter_mset)+
  have fi: "first_in (calculate_day_summary rs) = first_in (calculate_day_summary rs')"
    by (simp add: day_summary_fields(3) py_min_mset [OF ins])
  have lo: "last_out (calculate_day_summary rs) = last_out (calculate_day_summary rs')"
    by (simp add: day_summary_fields(4) py_max_mset [OF outs])
  have pr: "in_out_pairs (calculate_day_summary rs) = in_out_pairs (calculate_day_summary rs')"
    by (simp add: day_summary_fields(5) create_pairs_mset [OF ins outs])
  have tot: "total_office_minutes (calculate_day_summary rs) =
            total_office_minutes (calculate_day_summary rs')"
    if "\<forall>a \<in> set rs. \<forall>b \<in> set rs. total_time a \<noteq> None \<longrightarrow> total_time b \<noteq> None \<longrightarrow>
            total_time a = total_time b"
    using first_total_unique [OF assms that]
    by (simp add: day_summary_fields(1) calculate_from_pairs_mset [OF ins outs])
  have st: "status (calculate_day_summary rs) = status (calculate_day_summary rs')"
    if "\<forall>a \<in> set rs. \<forall>b \<in> set rs. total_time a \<noteq> None \<longrightarrow> total_time b \<noteq> None \<longrightarrow>
            total_time a = total_time b"
    using tot [OF that] by (simp add: day_summary_fields(2))
  have rm: "day_remark (calculate_day_summary rs) = day_remark (calculate_day_summary rs')"
    if "\<forall>a \<in> set rs. \<forall>b \<in> set rs. truthy_str (remark a) \<longrightarrow> truthy_str (remark b) \<longrightarrow>
            remark a = remark b"
    using last_remark_unique [OF assms that] by (simp add: day_summary_fields(6))
  have all: "calculate_day_summary rs = calculate_day_summary rs'"
    if t: "\<forall>a \<in> set rs. \<forall>b \<in> set rs. total_time a \<noteq> None \<longrightarrow> total_time b \<noteq> None \<longrightarrow>
            total_time a = total_time b"
    and r: "\<forall>a \<in> set rs. \<forall>b \<in> set rs. truthy_str (remark a) \<longrightarrow> truthy_str (remark b) \<longrightarrow>
            remark a = remark b"
    by (rule daily_summary.equality) (simp_all add: fi lo pr tot [OF t] st [OF t] rm [OF r])
  from fi lo pr tot st rm all show ?thesis by blast
qed


text \<open>Two records without device totals, one of them with a remark, in both orders.\<close>

theorem day_summary_permutation_witness:
  "mset [\<lparr>code = ''E1'', date = 739021, in_time = Some (Time 9 0 0 0),
            out_time = Some (Time 12 0 0 0), total_time = None, remark = Some ''P''\<rparr>,
         \<lparr>code = ''E1'', date = 739021, in_time = Some (Time 13 0 0 0),
            out_time = Some (Time 17 30 0 0), total_time = None, remark = None\<rparr>]
   = mset [\<lparr>code = ''E1'', date = 739021, in_time = Some (Time 13 0 0 0),
            out_time = Some (Time 17 30 0 0), total_time = None, remark = None\<rparr>,
           \<lparr>code = ''E1'', date = 739021, in_time = Some (Time 9 0 0 0),
            out_time = Some (Time 12 0 0 0), total_time = None, remark = Some ''P''\<rparr>]
   \<and> calculate_day_summary
        [\<lparr>code = ''E1'', date = 739021, in_time = Some (Time 9 0 0 0),
            out_time = Some (Time 12 0 0 0), total_time = None, remark = Some ''P''\<rparr>,
         \<lparr>code = ''E1'', date = 739021, in_time = Some (Time 13 0 0 0),
            out_time = Some (Time 17 30 0 0), total_time = None, remark = None\<rparr>]
     = calculate_day_summary
        [\<lparr>code = ''E1'', date = 739021, in_time = Some (Time 13 0 0 0),
            out_time = Some (Time 17 30 0 0), total_time = None, remark = None\<rparr>,
         \<lparr>code = ''E1'', date = 739021, in_time = Some (Time 9 0 0 0),
            out_time = Some (Time 12 0 0 0), total_time = None, remark = Some ''P''\<rparr>]
   \<and> total_office_minutes (calculate_day_summary
        [\<lparr>code = ''E1'', date = 739021, in_time = Some (Time 13 0 0 0),
            out_time = Some (Time 17 30 0 0), total_time = None, remark = None\<rparr>,
         \<lparr>code = ''E1'', date = 739021, in_time = Some (Time 9 0 0 0),
            out_time = Some (Time 12 0 0 0), total_time = None, remark = Some ''P''\<rparr>]) = 450"
  using day_summary_permutation [where rs =
       "[\<lparr>code = ''E1'', date = 739021, in_time = Some (Time 9 0 0 0),
            out_time = Some (Time 12 0 0 0), total_time = None, remark = Some ''P''\<rparr>,
         \<lparr>code = ''E1'', date = 739021, in_time = Some (Time 13 0 0 0),
            out_time = Some (Time 17 30 0 0), total_time = None, remark = None\<rparr>]"
     and rs' =
       "[\<lparr>code = ''E1'', date = 739021, in_time = Some (Time 13 0 0 0),
            out_time = Some (Time 17 30 0 0), total_time = None, remark = None\<rparr>,
         \<lparr>code = ''E1'', date = 739021, in_time = Some (Time 9 0 0 0),
            out_time = Some (Time 12 0 0 0), total_time = None, remark = Some ''P''\<rparr>]"]
  by (simp add: truthy_str_def day_summary_fields(1) List.map_filter_simps
        calculate_from_pairs_def time_eval)

text \<open>
  C6 as stated fails: two records with device totals 08:00 and 05:00 and remarks P and L.
  In one order the day has 480 minutes, is PRESENT and keeps remark L; in the other it has
  300 minutes, is ABSENT and keeps remark P.
\<close>

theorem day_summary_order_counterexample:
  "mset [\<lparr>code = ''E1'', date = 739021, in_time = None, out_time = None,
            total_time = Some (Time 8 0 0 0), remark = Some ''P''\<rparr>,
         \<lparr>code = ''E1'', date = 739021, in_time = None, out_time = None,
            total_time = Some (Time 5 0 0 0), remark = Some ''L''\<rparr>]
   = mset [\<lparr>code = ''E1'', date = 739021, in_time = None, out_time = None,
            total_time = Some (Time 5 0 0 0), remark = Some ''L''\<rparr>,
           \<lparr>code = ''E1'', date = 739021, in_time = None, out_time = None,
            total_time = Some (Time 8 0 0 0), remark = Some ''P''\<rparr>]
   \<and> calculate_day_summary
        [\<lparr>code = ''E1'', date = 739021, in_time = None, out_time = None,
            total_time = Some (Time 8 0 0 0), remark = Some ''P''\<rparr>,
         \<lparr>code = ''E1'', date = 739021, in_time = None, out_time = None,
            total_time = Some (Time 5 0 0 0), remark = Some ''L''\<rparr>]
     = \<lparr>total_office_minutes = 480, status = PRESENT, first_in = None, last_out = None,
        in_out_pairs = None, day_remark = Some ''L''\<rparr>
   \<and> calculate_day_summary
        [\<lparr>code = ''E1'', date = 739021, in_time = None, out_time = None,
            total_time = Some (Time 5 0 0 0), remark = Some ''L''\<rparr>,
         \<lparr>code = ''E1'', date = 739021, in_time = None, out_time = None,
            total_time = Some (Time 8 0 0 0), remark = Some ''P''\<rparr>]
     = \<lparr>total_office_minutes = 300, status = ABSENT, first_in = None, last_out = None,
        in_out_pairs = None, day_remark = Some ''P''\<rparr>"
  by (simp add: calculate_day_summary_def day_step_def truthy_str_def create_pairs_def
        py_min_def py_max_def Let_def)

text \<open>
  C2. The status is PRESENT exactly when the total is at least 360 and ABSENT otherwise,
  never PARTIAL; the bound is the constant 360. The calculator built from the stored
  settings is the same whether the minimum hours for present are 4 or 6, and a day of
  300 minutes is ABSENT although 300 is at least 4 hours.
\<close>

theorem day_status_fixed_minimum:
  "(status (calculate_day_summary rs) = PRESENT) =
     (360 \<le> total_office_minutes (calculate_day_summary rs))
   \<and> (status (calculate_day_summary rs) = ABSENT) =
     (total_office_minutes (calculate_day_summary rs) < 360)
   \<and> status (calculate_day_summary rs) \<noteq> PARTIAL
   \<and> upload_calculator \<lparr>dyn_expected_hours_per_day = 8, dyn_wfo_days_per_week = 3,
        threshold_red = 70, threshold_amber = 90, min_hours_for_present = 4\<rparr>
     = upload_calculator \<lparr>dyn_expected_hours_per_day = 8, dyn_wfo_days_per_week = 3,
        threshold_red = 70, threshold_amber = 90, min_hours_for_present = 6\<rparr>
   \<and> total_office_minutes (calculate_day_summary
        [\<lparr>code = ''E1'', date = 739021, in_time = Some (Time 9 0 0 0),
          out_time = Some (Time 14 0 0 0), total_time = None, remark = None\<rparr>]) = 300
   \<and> status (calculate_day_summary
        [\<lparr>code = ''E1'', date = 739021, in_time = Some (Time 9 0 0 0),
          out_time = Some (Time 14 0 0 0), total_time = None, remark = None\<rparr>]) = ABSENT"
  by (simp add: day_summary_fields(1,2) upload_calculator_def List.map_filter_simps
        calculate_from_pairs_def time_eval)

section \<open>Claims about the compliance status\<close>

text \<open>
  C3. The classifier of \<^verbatim>\<open>config.py\<close> takes its two thresholds from the settings, but the
  classifier the weekly summary calls, \<^verbatim>\<open>TimeCalculator._get_status_color\<close>, reads none: it
  is the mapping at 70 and 90 whatever is configured. With the red threshold set to 80, a
  week of one PRESENT day of 360 minutes against 480 expected has 75 percent: RED for the
  configured thresholds, AMBER in the weekly summary. At the default thresholds the two
  agree, and 67.71 is RED, 72.92 is AMBER and 100 is GREEN.
\<close>

theorem weekly_status_ignores_thresholds:
  "calc_get_status_color p = get_status_color default_settings p
   \<and> compliance_percentage (employee_week (TimeCalculator 8 3) 739019 739025
        [(739019, \<lparr>total_office_minutes = 360, status = PRESENT, first_in = None,
                   last_out = None, in_out_pairs = None, day_remark = None\<rparr>)]) = 75
   \<and> week_status (employee_week (TimeCalculator 8 3) 739019 739025
        [(739019, \<lparr>total_office_minutes = 360, status = PRESENT, first_in = None,
                   last_out = None, in_out_pairs = None, day_remark = None\<rparr>)]) = AMBER
   \<and> calc_get_status_color 75 = AMBER
   \<and> get_status_color (default_settings\<lparr>THRESHOLD_RED := 80\<rparr>) 75 = RED
   \<and> calc_get_status_color (6771 / 100) = RED
   \<and> calc_get_status_color (7292 / 100) = AMBER
   \<and> calc_get_status_color 100 = GREEN"
proof -
  have percent: "py_float_mul (py_true_div 360 480) 100 = 75"
    by (simp add: float_eval)
  have stored: "py_round2 75 = 75"
    by (simp add: float_eval)
  show ?thesis
    by (simp add: employee_week_def TimeCalculator_def get_status_color_def
          calc_get_status_color_def default_settings_def percent stored)
qed

text \<open>
  C7. The per-day display chooses its colour by its own comparisons, not through the
  classifier. A day of 432 minutes against 480 expected is exactly 90 percent: the
  display shows GREEN where the classifier gives AMBER. With the red threshold set to 60,
  65 percent is AMBER for the classifier of \<^verbatim>\<open>config.py\<close> and RED for the display and for
  the calculator's classifier, which both keep 70 and 90.
\<close>

theorem daily_display_differs_from_classifier:
  "daily_compliance 432 480 = 90
   \<and> daily_status_color (daily_compliance 432 480) = GREEN
   \<and> get_status_color default_settings (daily_compliance 432 480) = AMBER
   \<and> calc_get_status_color (daily_compliance 432 480) = AMBER
   \<and> get_status_color (default_settings\<lparr>THRESHOLD_RED := 60\<rparr>) 65 = AMBER
   \<and> daily_status_color 65 = RED
   \<and> calc_get_status_color 65 = RED"
  by (simp add: daily_compliance_def daily_status_color_def get_status_color_def
        calc_get_status_color_def default_settings_def float_eval)

section \<open>The weekly loops and the rounding of floats\<close>

lemma week_days_loop_sums:
  "week_days_loop ws we ds (t, n) =
     (t + (\<Sum>(d, s) \<leftarrow> filter (\<lambda>(d, s). ws \<le> d \<and> d \<le> we) ds. total_office_minutes s),
      n + int (length (filter (\<lambda>(d, s). status s = PRESENT \<or> status s = PARTIAL)
                 (filter (\<lambda>(d, s). ws \<le> d \<and> d \<le> we) ds))))"
  by (induction ws we ds "(t, n)" arbitrary: t n rule: week_days_loop.induct) auto

lemma weekly_loop_other:
  "emp \<notin> fst ` set dss \<Longrightarrow> weekly_loop self ws we dss m emp = m emp"
  by (induction dss arbitrary: m) auto

lemma weekly_loop_lookup:
  "distinct (map fst dss) \<Longrightarrow> (emp, ds) \<in> set dss \<Longrightarrow>
   weekly_loop self ws we dss m emp = Some (employee_week self ws we ds)"
proof (induction dss arbitrary: m)
  case Nil
  then show ?case by simp
next
  case (Cons a dss)
  obtain e ds' where a: "a = (e, ds')" by (cases a)
  show ?case
  proof (cases "(emp, ds) \<in> set dss")
    case True
    with Cons a show ?thesis by simp
  next
    case False
    with Cons.prems a have eq: "e = emp" "ds' = ds" by auto
    from Cons.prems(1) a eq have "emp \<notin> fst ` set dss" by auto
    from weekly_loop_other [OF this] a eq show ?thesis by simp
  qed
qed

lemma weekly_loop_present:
  "emp \<in> fst ` set dss \<Longrightarrow> weekly_loop self ws we dss m emp \<noteq> None"
proof (induction dss arbitrary: m)
  case Nil
  then show ?case by simp
next
  case (Cons a dss)
  obtain e ds' where a: "a = (e, ds')" by (cases a)
  show ?case
  proof (cases "emp \<in> fst ` set dss")
    case True
    with Cons.IH a show ?thesis by simp
  next
    case False
    with Cons.prems a have "e = emp" by auto
    with weekly_loop_other [OF False] a show ?thesis by simp
  qed
qed

lemma round_half_even_close: "\<bar>of_int (round_half_even y) - y\<bar> \<le> 1 / 2"
proof -
  define f where "f = \<lfloor>y\<rfloor>"
  define g :: real where "g = of_int f"
  have b: "g \<le> y" "y < g + 1" unfolding f_def g_def by linarith+
  have "round_half_even y = f \<and> y - g \<le> 1 / 2 \<or> round_half_even y = f + 1 \<and> y - g \<ge> 1 / 2"
    unfolding round_half_even_def Let_def f_def [symmetric] g_def [symmetric] by auto
  then show ?thesis
  proof
    assume "round_half_even y = f \<and> y - g \<le> 1 / 2"
    then have "of_int (round_half_even y) = g" "y - g \<le> 1 / 2" by (simp_all add: g_def)
    with b show ?thesis by (simp add: abs_if)
  next
    assume "round_half_even y = f + 1 \<and> y - g \<ge> 1 / 2"
    then have "of_int (round_half_even y) = g + 1" "y - g \<ge> 1 / 2" by (simp_all add: g_def)
    with b show ?thesis by (simp add: abs_if)
  qed
qed

lemma binade_le: "x \<noteq> 0 \<Longrightarrow> 2 powi binade x \<le> \<bar>x\<bar>"
proof (cases "1 \<le> \<bar>x\<bar>")
  case True
  define n where "n = \<lfloor>\<bar>x\<bar>\<rfloor>"
  have n: "0 < n" using True unfolding n_def by linarith
  have "(2::int) ^ nat (bitlen n - 1) \<le> n" using bitlen_bounds [OF n] ..
  then have "real_of_int (2 ^ nat (bitlen n - 1)) \<le> of_int n" by (simp only: of_int_le_iff)
  then have pow: "(2::real) ^ nat (bitlen n - 1) \<le> of_int n" by simp
  have "bitlen n \<noteq> 0" using n by (simp add: bitlen_eq_zero_iff)
  then have "0 \<le> bitlen n - 1" using bitlen_nonneg [of n] by linarith
  then have "(2::real) powi (bitlen n - 1) = 2 ^ nat (bitlen n - 1)"
    by (simp add: power_int_def)
  moreover have "of_int n \<le> \<bar>x\<bar>" unfolding n_def by (rule of_int_floor_le)
  ultimately have "(2::real) powi (bitlen n - 1) \<le> \<bar>x\<bar>" using pow by linarith
  then show ?thesis using True by (simp add: binade_def n_def)
next
  case False
  assume nz: "x \<noteq> 0"
  define y where "y = 1 / \<bar>x\<bar>"
  have x: "0 < \<bar>x\<bar>" "\<bar>x\<bar> < 1" using nz False by simp_all
  then have y1: "1 < y" unfolding y_def by simp
  define m where "m = \<lceil>y\<rceil> - 1"
  have "1 < \<lceil>y\<rceil>" using y1 by (simp add: less_ceiling_iff)
  then have m: "0 < m" unfolding m_def by simp
  have ym: "y \<le> of_int m + 1" unfolding m_def by simp
  define j where "j = bitlen m"
  have "m < 2 ^ nat j" unfolding j_def using bitlen_bounds [OF m] ..
  then have "m + 1 \<le> 2 ^ nat j" by simp
  then have "real_of_int (m + 1) \<le> real_of_int (2 ^ nat j)" by (simp only: of_int_le_iff)
  then have "of_int m + 1 \<le> (2::real) ^ nat j" by simp
  with ym have yj: "y \<le> 2 ^ nat j" by simp
  have "j \<noteq> 0" unfolding j_def using m by (simp add: bitlen_eq_zero_iff)
  then have jpos: "0 < j" unfolding j_def using bitlen_nonneg [of m] by linarith
  then have pw: "(2::real) powi (- j) = 1 / 2 ^ nat j"
    by (simp add: power_int_def inverse_eq_divide power_one_over)
  have "1 / (2::real) ^ nat j \<le> 1 / y"
    using yj y1 by (intro divide_left_mono) simp_all
  also have "1 / y = \<bar>x\<bar>" unfolding y_def by simp
  finally have "(2::real) powi (- j) \<le> \<bar>x\<bar>" using pw by simp
  then show ?thesis using False by (simp add: binade_def y_def m_def j_def)
qed

lemma round_to_double_close: "\<bar>round_to_double x - x\<bar> \<le> \<bar>x\<bar> / 9007199254740992"
proof (cases "x = 0")
  case True
  then show ?thesis by (simp add: round_to_double_def)
next
  case False
  define s :: real where "s = 2 powi (binade x - 52)"
  have spos: "0 < s" unfolding s_def by (simp add: zero_less_power_int)
  have "s = 2 powi binade x / 2 powi 52"
    unfolding s_def by (simp add: power_int_diff)
  then have s52: "s * 4503599627370496 = 2 powi binade x" by simp
  have sle: "s * 4503599627370496 \<le> \<bar>x\<bar>"
    using binade_le [OF False] s52 by simp
  have r: "round_to_double x = of_int (round_half_even (x / s)) * s"
    using False by (simp add: round_to_double_def s_def Let_def)
  have "\<bar>of_int (round_half_even (x / s)) - x / s\<bar> \<le> 1 / 2"
    by (rule round_half_even_close)
  then have "\<bar>of_int (round_half_even (x / s)) - x / s\<bar> * s \<le> (1 / 2) * s"
    using spos by (intro mult_right_mono) simp_all
  moreover have "\<bar>of_int (round_half_even (x / s)) - x / s\<bar> * s
        = \<bar>of_int (round_half_even (x / s)) * s - x\<bar>"
  proof -
    have "\<bar>of_int (round_half_even (x / s)) - x / s\<bar> * s
        = \<bar>(of_int (round_half_even (x / s)) - x / s) * s\<bar>"
      using spos by (simp add: abs_mult)
    also have "(of_int (round_half_even (x / s)) - x / s) * s
        = of_int (round_half_even (x / s)) * s - x"
      using spos by (simp add: left_diff_distrib)
    finally show ?thesis .
  qed
  ultimately have "\<bar>round_to_double x - x\<bar> \<le> s / 2" using r by simp
  with sle show ?thesis by simp
qed


lemma float_error_sum:
  fixes a e1 t1 e2 c t2 e3 t3 e4 r :: real
  assumes "0 \<le> a"
    and "e1 \<le> a / 9007199254740992"
    and "t1 \<le> a + e1"
    and "e2 \<le> 100 * t1 / 9007199254740992"
    and "c \<le> e2 + 100 * e1"
    and "t2 \<le> 100 * a + c"
    and "e3 \<le> 1 / 200"
    and "t3 \<le> t2 + e3"
    and "e4 \<le> t3 / 9007199254740992"
    and "r \<le> e4 + e3 + c"
  shows "r \<le> 1 / 200 + (100 * a + 1) / 1125899906842624"
  using assms by argo

lemma compliance_close:
  "\<bar>py_round2 (py_float_mul (round_to_double q) 100) - q * 100\<bar>
     \<le> 1 / 200 + (\<bar>q * 100\<bar> + 1) / 1125899906842624"
proof -
  define x1 where "x1 = round_to_double q"
  define x2 where "x2 = round_to_double (x1 * 100)"
  define d :: real where "d = of_int (round_half_even (x2 * 100)) / 100"
  define y where "y = round_to_double d"
  have a0: "0 \<le> \<bar>q\<bar>" by simp
  have b1: "\<bar>x1 - q\<bar> \<le> \<bar>q\<bar> / 9007199254740992"
    unfolding x1_def by (rule round_to_double_close)
  have x1b: "\<bar>x1\<bar> \<le> \<bar>q\<bar> + \<bar>x1 - q\<bar>"
    by argo
  have "\<bar>x2 - x1 * 100\<bar> \<le> \<bar>x1 * 100\<bar> / 9007199254740992"
    unfolding x2_def by (rule round_to_double_close)
  then have b3: "\<bar>x2 - x1 * 100\<bar> \<le> 100 * \<bar>x1\<bar> / 9007199254740992"
    by (simp add: abs_mult)
  have c: "\<bar>x2 - q * 100\<bar> \<le> \<bar>x2 - x1 * 100\<bar> + 100 * \<bar>x1 - q\<bar>"
    by argo
  have x2b: "\<bar>x2\<bar> \<le> 100 * \<bar>q\<bar> + \<bar>x2 - q * 100\<bar>"
    by argo
  have "\<bar>of_int (round_half_even (x2 * 100)) - x2 * 100\<bar> \<le> 1 / 2"
    by (rule round_half_even_close)
  then have b4: "\<bar>d - x2\<bar> \<le> 1 / 200"
    unfolding d_def by argo
  have db: "\<bar>d\<bar> \<le> \<bar>x2\<bar> + \<bar>d - x2\<bar>"
    by argo
  have b5: "\<bar>y - d\<bar> \<le> \<bar>d\<bar> / 9007199254740992"
    unfolding y_def by (rule round_to_double_close)
  have "\<bar>y - x2\<bar> \<le> \<bar>y - d\<bar> + \<bar>d - x2\<bar>"
    by argo
  moreover have "\<bar>y - q * 100\<bar> \<le> \<bar>y - x2\<bar> + \<bar>x2 - q * 100\<bar>"
    by argo
  ultimately have r: "\<bar>y - q * 100\<bar> \<le> \<bar>y - d\<bar> + \<bar>d - x2\<bar> + \<bar>x2 - q * 100\<bar>"
    by argo
  have "\<bar>y - q * 100\<bar> \<le> 1 / 200 + (100 * \<bar>q\<bar> + 1) / 1125899906842624"
    using a0 b1 x1b b3 c x2b b4 db b5 r by (rule float_error_sum)
  moreover have "\<bar>q * 100\<bar> = 100 * \<bar>q\<bar>" by (simp add: abs_mult)
  ultimately show ?thesis
    unfolding y_def d_def x2_def x1_def py_round2_def py_float_mul_def by simp
qed

lemma py_round2_zero: "py_round2 0 = 0"
  by (simp add: py_round2_def round_to_double_def round_half_even_def)

lemma employee_week_unfold:
  "employee_week self ws we ds =
     (let in_week = filter (\<lambda>(d, s). ws \<le> d \<and> d \<le> we) ds;
          tot = (\<Sum>(d, s) \<leftarrow> in_week. total_office_minutes s);
          days = int (length (filter (\<lambda>(d, s). status s = PRESENT \<or> status s = PARTIAL) in_week));
          expected = days * expected_hours_per_day self * 60;
          compliance =
            (if expected > 0 then py_float_mul (py_true_div tot expected) 100 else 0)
      in \<lparr>week_start = ws, week_end = we, week_total_office_minutes = tot, wfo_days = days,
          expected_minutes = expected, compliance_percentage = py_round2 compliance,
          week_status = calc_get_status_color compliance\<rparr>)"
  by (simp add: employee_week_def week_days_loop_sums Let_def)

section \<open>Claims about the weekly summary\<close>

text \<open>
  C4, as amended. For one employee's daily summaries and a window from \<open>ws\<close> to \<open>we\<close>, both
  included: the total is the sum of the total office minutes of the days in the window; the
  office-day count is the number of those days whose status is PRESENT or PARTIAL; the
  expected minutes are that count times the expected hours per day times 60. When the
  expected minutes are positive, the compliance percentage is the float total / expected
  * 100 rounded to two decimals: a double nearest to some number of hundredths, and within
  0.005 of the exact quotient times 100 up to the rounding of the float operations, at
  most \<open>(|p| + 1) / 2^50\<close> for the exact percentage \<open>p\<close>; there is no cap at 100. Otherwise it
  is 0. This is the summary stored for the employee when the employee codes are distinct,
  as the keys of a dictionary are.
\<close>

theorem weekly_summary_values:
  assumes "W = employee_week self ws we ds"
    and "in_week = filter (\<lambda>(d, s). ws \<le> d \<and> d \<le> we) ds"
  shows "week_total_office_minutes W = (\<Sum>(d, s) \<leftarrow> in_week. total_office_minutes s)
     \<and> wfo_days W =
         int (length (filter (\<lambda>(d, s). status s = PRESENT \<or> status s = PARTIAL) in_week))
     \<and> expected_minutes W = wfo_days W * expected_hours_per_day self * 60
     \<and> (expected_minutes W > 0 \<longrightarrow>
          (\<exists>n. compliance_percentage W = round_to_double (of_int n / 100))
          \<and> \<bar>compliance_percentage W -
              (of_int (week_total_office_minutes W) / of_int (expected_minutes W)) * 100\<bar>
              \<le> 1 / 200 +
                (\<bar>(of_int (week_total_office_minutes W) / of_int (expected_minutes W)) * 100\<bar> + 1)
                  / 2 ^ 50)
     \<and> (expected_minutes W \<le> 0 \<longrightarrow> compliance_percentage W = 0)
     \<and> (distinct (map fst dss) \<and> (emp, ds) \<in> set dss \<longrightarrow>
          calculate_weekly_summary self dss ws we emp = Some W)"
proof -
  define tot where "tot = (\<Sum>(d, s) \<leftarrow> in_week. total_office_minutes s)"
  define days where
    "days = int (length (filter (\<lambda>(d, s). status s = PRESENT \<or> status s = PARTIAL) in_week))"
  define expected where "expected = days * expected_hours_per_day self * 60"
  define compliance where
    "compliance = (if expected > 0 then py_float_mul (py_true_div tot expected) 100 else 0)"
  have W: "W = \<lparr>week_start = ws, week_end = we, week_total_office_minutes = tot,
      wfo_days = days, expected_minutes = expected,
      compliance_percentage = py_round2 compliance,
      week_status = calc_get_status_color compliance\<rparr>"
    unfolding assms employee_week_unfold Let_def compliance_def expected_def days_def tot_def
    by simp
  have pos: "(\<exists>n. py_round2 compliance = round_to_double (of_int n / 100))
      \<and> \<bar>py_round2 compliance - (of_int tot / of_int expected) * 100\<bar>
          \<le> 1 / 200 + (\<bar>(of_int tot / of_int expected) * 100\<bar> + 1) / 2 ^ 50"
    if "expected > 0"
  proof
    show "\<exists>n. py_round2 compliance = round_to_double (of_int n / 100)"
      unfolding py_round2_def by (rule exI) (rule refl)
    have "compliance = py_float_mul (round_to_double (of_int tot / of_int expected)) 100"
      using that by (simp add: compliance_def py_true_div_def)
    then show "\<bar>py_round2 compliance - (of_int tot / of_int expected) * 100\<bar>
          \<le> 1 / 200 + (\<bar>(of_int tot / of_int expected) * 100\<bar> + 1) / 2 ^ 50"
      using compliance_close [of "of_int tot / of_int expected"] by simp
  qed
  have zero: "py_round2 compliance = 0" if "expected \<le> 0"
    using that by (simp add: compliance_def py_round2_zero)
  have look: "calculate_weekly_summary self dss ws we emp = Some W"
    if "distinct (map fst dss)" and "(emp, ds) \<in> set dss"
    using weekly_loop_lookup [OF that] assms(1) by (simp add: calculate_weekly_summary_def)
  show ?thesis
    unfolding W using pos zero look [unfolded W]
    by (simp add: tot_def days_def expected_def)
qed

text \<open>
  A week with a PRESENT day of 483 minutes and an ABSENT day of 54 minutes, and a day
  outside the window: 537 minutes against 480 expected. The float percentage is just
  below 111.875 and is stored as the double nearest to 111.87.
\<close>

theorem weekly_summary_values_witness:
  "employee_week (TimeCalculator 8 3) 739019 739025
      [(739019, \<lparr>total_office_minutes = 483, status = PRESENT, first_in = None,
                 last_out = None, in_out_pairs = None, day_remark = None\<rparr>),
       (739020, \<lparr>total_office_minutes = 54, status = ABSENT, first_in = None,
                 last_out = None, in_out_pairs = None, day_remark = None\<rparr>),
       (739030, \<lparr>total_office_minutes = 500, status = PRESENT, first_in = None,
                 last_out = None, in_out_pairs = None, day_remark = None\<rparr>)]
   = \<lparr>week_start = 739019, week_end = 739025, week_total_office_minutes = 537,
      wfo_days = 1, expected_minutes = 480,
      compliance_percentage = 984018926394409 / 8796093022208,
      week_status = GREEN\<rparr>
   \<and> round_to_double (11187 / 100) = 984018926394409 / 8796093022208
   \<and> py_float_mul (py_true_div 537 480) 100 = 7872503254876159 / 70368744177664
   \<and> calculate_weekly_summary (TimeCalculator 8 3)
      [(''E1'',
        [(739019, \<lparr>total_office_minutes = 483, status = PRESENT, first_in = None,
                   last_out = None, in_out_pairs = None, day_remark = None\<rparr>),
         (739020, \<lparr>total_office_minutes = 54, status = ABSENT, first_in = None,
                   last_out = None, in_out_pairs = None, day_remark = None\<rparr>),
         (739030, \<lparr>total_office_minutes = 500, status = PRESENT, first_in = None,
                   last_out = None, in_out_pairs = None, day_remark = None\<rparr>)])]
      739019 739025 ''E1''
   = Some \<lparr>week_start = 739019, week_end = 739025, week_total_office_minutes = 537,
      wfo_days = 1, expected_minutes = 480,
      compliance_percentage = 984018926394409 / 8796093022208,
      week_status = GREEN\<rparr>"
proof -
  have percent: "py_float_mul (py_true_div 537 480) 100 = 7872503254876159 / 70368744177664"
    by (simp add: float_eval)
  have stored: "py_round2 (7872503254876159 / 70368744177664) = 984018926394409 / 8796093022208"
    by (simp add: float_eval)
  have week: "employee_week (TimeCalculator 8 3) 739019 739025
      [(739019, \<lparr>total_office_minutes = 483, status = PRESENT, first_in = None,
                 last_out = None, in_out_pairs = None, day_remark = None\<rparr>),
       (739020, \<lparr>total_office_minutes = 54, status = ABSENT, first_in = None,
                 last_out = None, in_out_pairs = None, day_remark = None\<rparr>),
       (739030, \<lparr>total_office_minutes = 500, status = PRESENT, first_in = None,
                 last_out = None, in_out_pairs = None, day_remark = None\<rparr>)]
   = \<lparr>week_start = 739019, week_end = 739025, week_total_office_minutes = 537,
      wfo_days = 1, expected_minutes = 480,
      compliance_percentage = 984018926394409 / 8796093022208,
      week_status = GREEN\<rparr>"
    by (simp add: employee_week_def TimeCalculator_def calc_get_status_color_def
          percent stored)
  have floats: "round_to_double (11187 / 100) = 984018926394409 / 8796093022208
      \<and> py_float_mul (py_true_div 537 480) 100 = 7872503254876159 / 70368744177664"
    by (simp add: float_eval)
  have keys: "distinct (map fst
      [(''E1'',
        [(739019, \<lparr>total_office_minutes = 483, status = PRESENT, first_in = None,
                   last_out = None, in_out_pairs = None, day_remark = None\<rparr>),
         (739020, \<lparr>total_office_minutes = 54, status = ABSENT, first_in = None,
                   last_out = None, in_out_pairs = None, day_remark = None\<rparr>),
         (739030, \<lparr>total_office_minutes = 500, status = PRESENT, first_in = None,
                   last_out = None, in_out_pairs = None, day_remark = None\<rparr>)])])
      \<and> (''E1'',
        [(739019, \<lparr>total_office_minutes = 483, status = PRESENT, first_in = None,
                   last_out = None, in_out_pairs = None, day_remark = None\<rparr>),
         (739020, \<lparr>total_office_minutes = 54, status = ABSENT, first_in = None,
                   last_out = None, in_out_pairs = None, day_remark = None\<rparr>),
         (739030, \<lparr>total_office_minutes = 500, status = PRESENT, first_in = None,
                   last_out = None, in_out_pairs = None, day_remark = None\<rparr>)])
      \<in> set [(''E1'',
        [(739019, \<lparr>total_office_minutes = 483, status = PRESENT, first_in = None,
                   last_out = None, in_out_pairs = None, day_remark = None\<rparr>),
         (739020, \<lparr>total_office_minutes = 54, status = ABSENT, first_in = None,
                   last_out = None, in_out_pairs = None, day_remark = None\<rparr>),
         (739030, \<lparr>total_office_minutes = 500, status = PRESENT, first_in = None,
                   last_out = None, in_out_pairs = None, day_remark = None\<rparr>)])]"
    by simp
  from weekly_summary_values [OF refl refl, where self = "TimeCalculator 8 3"
      and ws = 739019 and we = 739025 and emp = "''E1''"
      and ds = "[(739019, \<lparr>total_office_minutes = 483, status = PRESENT, first_in = None,
                 last_out = None, in_out_pairs = None, day_remark = None\<rparr>),
       (739020, \<lparr>total_office_minutes = 54, status = ABSENT, first_in = None,
                 last_out = None, in_out_pairs = None, day_remark = None\<rparr>),
       (739030, \<lparr>total_office_minutes = 500, status = PRESENT, first_in = None,
                 last_out = None, in_out_pairs = None, day_remark = None\<rparr>)]"
      and dss = "[(''E1'',
        [(739019, \<lparr>total_office_minutes = 483, status = PRESENT, first_in = None,
                   last_out = None, in_out_pairs = None, day_remark = None\<rparr>),
         (739020, \<lparr>total_office_minutes = 54, status = ABSENT, first_in = None,
                   last_out = None, in_out_pairs = None, day_remark = None\<rparr>),
         (739030, \<lparr>total_office_minutes = 500, status = PRESENT, first_in = None,
                   last_out = None, in_out_pairs = None, day_remark = None\<rparr>)])]"]
    keys
  have stored: "calculate_weekly_summary (TimeCalculator 8 3)
      [(''E1'',
        [(739019, \<lparr>total_office_minutes = 483, status = PRESENT, first_in = None,
                   last_out = None, in_out_pairs = None, day_remark = None\<rparr>),
         (739020, \<lparr>total_office_minutes = 54, status = ABSENT, first_in = None,
                   last_out = None, in_out_pairs = None, day_remark = None\<rparr>),
         (739030, \<lparr>total_office_minutes = 500, status = PRESENT, first_in = None,
                   last_out = None, in_out_pairs = None, day_remark = None\<rparr>)])]
      739019 739025 ''E1''
     = Some (employee_week (TimeCalculator 8 3) 739019 739025
      [(739019, \<lparr>total_office_minutes = 483, status = PRESENT, first_in = None,
                 last_out = None, in_out_pairs = None, day_remark = None\<rparr>),
       (739020, \<lparr>total_office_minutes = 54, status = ABSENT, first_in = None,
                 last_out = None, in_out_pairs = None, day_remark = None\<rparr>),
       (739030, \<lparr>total_office_minutes = 500, status = PRESENT, first_in = None,
                 last_out = None, in_out_pairs = None, day_remark = None\<rparr>)])"
    by blast
  from week floats stored show ?thesis by (simp only:) 
qed

text \<open>
  C4 as stated fails on the stored percentage: one PRESENT day of 483 minutes against 480
  expected is exactly 100.625 percent, and the summary holds the double nearest to 100.63.
\<close>

theorem weekly_compliance_rounding_counterexample:
  "week_total_office_minutes (employee_week (TimeCalculator 8 3) 739019 739025
      [(739019, \<lparr>total_office_minutes = 483, status = PRESENT, first_in = None,
                 last_out = None, in_out_pairs = None, day_remark = None\<rparr>)]) = 483
   \<and> expected_minutes (employee_week (TimeCalculator 8 3) 739019 739025
      [(739019, \<lparr>total_office_minutes = 483, status = PRESENT, first_in = None,
                 last_out = None, in_out_pairs = None, day_remark = None\<rparr>)]) = 480
   \<and> compliance_percentage (employee_week (TimeCalculator 8 3) 739019 739025
      [(739019, \<lparr>total_office_minutes = 483, status = PRESENT, first_in = None,
                 last_out = None, in_out_pairs = None, day_remark = None\<rparr>)])
       = 885150840824791 / 8796093022208
   \<and> round_to_double (10063 / 100) = 885150840824791 / 8796093022208
   \<and> (885150840824791 / 8796093022208 :: real) \<noteq> (483 / 480) * 100"
proof -
  have percent: "py_float_mul (py_true_div 483 480) 100 = 7080854882877441 / 70368744177664"
    by (simp add: float_eval)
  have stored: "py_round2 (7080854882877441 / 70368744177664) = 885150840824791 / 8796093022208"
    by (simp add: float_eval)
  have nearest: "round_to_double (10063 / 100) = 885150840824791 / 8796093022208"
    by (simp add: float_eval)
  show ?thesis
    by (simp add: employee_week_def TimeCalculator_def percent stored nearest)
qed

text \<open>
  C10. Every employee of the daily-summaries dictionary gets a weekly summary. When none
  of the employee's days lies in the window, it has total 0, office-day count 0, expected
  minutes 0, compliance 0 and status RED.
\<close>

theorem employee_without_days_in_week:
  "(emp \<in> fst ` set dss \<longrightarrow> calculate_weekly_summary self dss ws we emp \<noteq> None)
   \<and> (distinct (map fst dss) \<and> (emp, ds) \<in> set dss
        \<and> (\<forall>(d, s) \<in> set ds. \<not> (ws \<le> d \<and> d \<le> we)) \<longrightarrow>
       calculate_weekly_summary self dss ws we emp =
         Some \<lparr>week_start = ws, week_end = we, week_total_office_minutes = 0, wfo_days = 0,
               expected_minutes = 0, compliance_percentage = 0, week_status = RED\<rparr>)"
proof -
  have a: "calculate_weekly_summary self dss ws we emp \<noteq> None" if "emp \<in> fst ` set dss"
    using weekly_loop_present [OF that] by (simp add: calculate_weekly_summary_def)
  have b: "calculate_weekly_summary self dss ws we emp =
         Some \<lparr>week_start = ws, week_end = we, week_total_office_minutes = 0, wfo_days = 0,
               expected_minutes = 0, compliance_percentage = 0, week_status = RED\<rparr>"
    if d: "distinct (map fst dss)" and m: "(emp, ds) \<in> set dss"
      and out: "\<forall>(d, s) \<in> set ds. \<not> (ws \<le> d \<and> d \<le> we)"
  proof -
    from out have "filter (\<lambda>(d, s). ws \<le> d \<and> d \<le> we) ds = []"
      by (auto simp: filter_empty_conv)
    then have "employee_week self ws we ds =
        \<lparr>week_start = ws, week_end = we, week_total_office_minutes = 0, wfo_days = 0,
         expected_minutes = 0, compliance_percentage = 0, week_status = RED\<rparr>"
      by (simp add: employee_week_unfold py_round2_zero calc_get_status_color_def)
    with weekly_loop_lookup [OF d m] show ?thesis
      by (simp add: calculate_weekly_summary_def)
  qed
  from a b show ?thesis by blast
qed

text \<open>Employee E1 has one day, after the week asked for; E2 has a day inside it.\<close>

theorem employee_without_days_in_week_witness:
  "calculate_weekly_summary (TimeCalculator 8 3)
      [(''E1'',
        [(739030, \<lparr>total_office_minutes = 500, status = PRESENT, first_in = None,
                   last_out = None, in_out_pairs = None, day_remark = None\<rparr>)]),
       (''E2'',
        [(739019, \<lparr>total_office_minutes = 400, status = PRESENT, first_in = None,
                   last_out = None, in_out_pairs = None, day_remark = None\<rparr>)])]
      739019 739025 ''E1''
   = Some \<lparr>week_start = 739019, week_end = 739025, week_total_office_minutes = 0,
      wfo_days = 0, expected_minutes = 0, compliance_percentage = 0, week_status = RED\<rparr>"
  using employee_without_days_in_week [where self = "TimeCalculator 8 3"
      and ws = 739019 and we = 739025 and emp = "''E1''"
      and ds = "[(739030, \<lparr>total_office_minutes = 500, status = PRESENT, first_in = None,
                   last_out = None, in_out_pairs = None, day_remark = None\<rparr>)]"
      and dss = "[(''E1'',
        [(739030, \<lparr>total_office_minutes = 500, status = PRESENT, first_in = None,
                   last_out = None, in_out_pairs = None, day_remark = None\<rparr>)]),
       (''E2'',
        [(739019, \<lparr>total_office_minutes = 400, status = PRESENT, first_in = None,
                   last_out = None, in_out_pairs = None, day_remark = None\<rparr>)])]"]
  by simp

section \<open>Week bounds\<close>

lemma get_week_bounds_cases:
  "get_week_bounds d = (if week_fits d then Inr (week_of d) else Inl OverflowError)"
  by (auto simp: get_week_bounds_def date_add_days_def week_fits_def week_of_def Let_def
        MAXORDINAL_def)

lemma weeks_loop_cases:
  "weeks_loop ds W =
     (if \<forall>d \<in> set ds. week_fits d then Inr (W \<union> week_of ` set ds) else Inl OverflowError)"
  by (induction ds arbitrary: W) (auto simp: get_week_bounds_cases)

lemma get_all_weeks_cases:
  "get_all_weeks dates =
     (if \<forall>d \<in> set dates. week_fits d then Inr (sorted_list_of_set (week_of ` set dates))
      else Inl OverflowError)"
  by (simp add: get_all_weeks_def weeks_loop_cases)

lemma weekday_range: "0 \<le> weekday d \<and> weekday d < 7"
  by (simp add: weekday_def)

lemma week_fits_range: "1 \<le> d \<Longrightarrow> d \<le> 3652054 \<Longrightarrow> week_fits d"
proof -
  assume d: "1 \<le> d" "d \<le> 3652054"
  define q where "q = (d - 1) div 7"
  define r where "r = (d - 1) mod 7"
  have split: "7 * q + r = d - 1"
    unfolding q_def r_def by (rule mult_div_mod_eq)
  have r: "0 \<le> r" "r < 7"
    unfolding r_def by simp_all
  have "d + 6 = (d - 1) + 7" by simp
  then have "(d + 6) mod 7 = (d - 1) mod 7" by (simp only: mod_add_self2)
  then have wd: "weekday d = r"
    by (simp add: weekday_def r_def)
  have "q \<le> 3652053 div 7"
    unfolding q_def by (rule zdiv_mono1) (use d in simp_all)
  then have q: "q \<le> 521721" by simp
  have q0: "0 \<le> q"
    unfolding q_def using d(1) by (simp add: pos_imp_zdiv_nonneg_iff)
  have "0 < d - r \<and> d - r + 6 \<le> 3652059"
    using split r q q0 d by linarith
  then show ?thesis
    by (simp add: week_fits_def wd MAXORDINAL_def)
qed

lemma week_of_monday: "weekday (fst (week_of d)) = 0"
proof -
  define q where "q = (d + 6) div 7"
  define r where "r = (d + 6) mod 7"
  have "7 * q + r = d + 6"
    unfolding q_def r_def by (rule mult_div_mod_eq)
  then have "d - r + 6 = 7 * q" by linarith
  then have "(d - r + 6) mod 7 = 0" by simp
  then show ?thesis
    by (simp add: week_of_def weekday_def r_def)
qed

lemma week_of_contains: "fst (week_of d) \<le> d \<and> d \<le> snd (week_of d) \<and> snd (week_of d) = fst (week_of d) + 6"
  using weekday_range [of d] by (simp add: week_of_def)

lemma week_of_less: "week_of d < week_of d' \<Longrightarrow> fst (week_of d) < fst (week_of d')"
  by (auto simp: week_of_def)



lemma week_of_strict: "sorted_wrt (<) (map fst (sorted_list_of_set (week_of ` set dates)))"
proof -
  let ?ws = "sorted_list_of_set (week_of ` set dates)"
  have fin: "finite (week_of ` set dates)" by simp
  have "sorted_wrt (<) ?ws"
    by (rule sorted_list_of_set.strict_sorted_key_list_of_set)
  moreover have "\<And>x y. x \<in> set ?ws \<Longrightarrow> y \<in> set ?ws \<Longrightarrow> x < y \<Longrightarrow> fst x < fst y"
    using week_of_less by (auto simp: fin)
  ultimately have "sorted_wrt (\<lambda>x y. fst x < fst y) ?ws"
    by (rule sorted_wrt_mono_rel [rotated])
  then show ?thesis by (simp add: sorted_wrt_map)
qed



lemma get_all_weeks_eval:
  "get_all_weeks dates =
     (if list_all week_fits dates then Inr (sort (remdups (map week_of dates)))
      else Inl OverflowError)"
  using sorted_list_of_set_sort_remdups [of "map week_of dates"]
  by (simp add: get_all_weeks_cases list_all_iff)

lemmas date_eval = ymd_def days_before_year_def days_before_month_def is_leap_def
  week_fits_def week_of_def weekday_def MAXORDINAL_def

section \<open>Claims about the weeks\<close>

text \<open>
  C8, as amended. For dates from 0001-01-01 to 9999-12-26 (ordinals 1 to 3652054), the
  week partitioner returns a list of pairs, strictly ascending by week start (so without
  duplicates): every pair starts on a Monday, ends six days later and contains one of
  the dates, every date lies in one of the pairs, and every permutation of the dates
  gives the same list.
\<close>

theorem week_partition:
  assumes "\<forall>d \<in> set dates. 1 \<le> d \<and> d \<le> 3652054"
  shows "\<exists>weeks. get_all_weeks dates = Inr weeks
     \<and> sorted_wrt (<) (map fst weeks)
     \<and> (\<forall>(a, b) \<in> set weeks.
           weekday a = 0 \<and> b = a + 6 \<and> (\<exists>d \<in> set dates. a \<le> d \<and> d \<le> b))
     \<and> (\<forall>d \<in> set dates. \<exists>(a, b) \<in> set weeks. a \<le> d \<and> d \<le> b)
     \<and> (\<forall>dates'. mset dates' = mset dates \<longrightarrow> get_all_weeks dates' = Inr weeks)"
proof -
  let ?ws = "sorted_list_of_set (week_of ` set dates)"
  have fits: "\<forall>d \<in> set dates. week_fits d"
    using assms week_fits_range by blast
  then have res: "get_all_weeks dates = Inr ?ws"
    by (simp add: get_all_weeks_cases)
  have set_ws: "set ?ws = week_of ` set dates"
    by (rule sorted_list_of_set.set_sorted_key_list_of_set) simp
  have a: "\<forall>(a, b) \<in> set ?ws.
           weekday a = 0 \<and> b = a + 6 \<and> (\<exists>d \<in> set dates. a \<le> d \<and> d \<le> b)"
  proof
    fix w assume "w \<in> set ?ws"
    then have "w \<in> week_of ` set dates" by (simp only: set_ws)
    then obtain d where d: "d \<in> set dates" "w = week_of d" by (rule imageE)
    have 1: "weekday (fst (week_of d)) = 0" by (rule week_of_monday)
    have 2: "fst (week_of d) \<le> d \<and> d \<le> snd (week_of d)
             \<and> snd (week_of d) = fst (week_of d) + 6" by (rule week_of_contains)
    from 2 d(1) have 3: "\<exists>d' \<in> set dates. fst (week_of d) \<le> d' \<and> d' \<le> snd (week_of d)"
      by (intro bexI [of _ d]) simp_all
    from 1 2 3 show "case w of (a, b) \<Rightarrow>
           weekday a = 0 \<and> b = a + 6 \<and> (\<exists>d \<in> set dates. a \<le> d \<and> d \<le> b)"
      unfolding d(2) case_prod_beta by (intro conjI) simp_all
  qed
  have b: "\<forall>d \<in> set dates. \<exists>(a, b) \<in> set ?ws. a \<le> d \<and> d \<le> b"
  proof
    fix d assume d: "d \<in> set dates"
    then have "week_of d \<in> week_of ` set dates" by (rule imageI)
    then have mem: "week_of d \<in> set ?ws" by (simp only: set_ws)
    have "case week_of d of (a, b) \<Rightarrow> a \<le> d \<and> d \<le> b"
      unfolding case_prod_beta using week_of_contains [of d] by (intro conjI) simp_all
    with mem show "\<exists>(a, b) \<in> set ?ws. a \<le> d \<and> d \<le> b" by (rule rev_bexI)
  qed
  have c: "\<forall>dates'. mset dates' = mset dates \<longrightarrow> get_all_weeks dates' = Inr ?ws"
  proof (intro allI impI)
    fix dates' assume "mset dates' = mset dates"
    then have "set dates' = set dates" by (rule mset_eq_setD)
    with fits show "get_all_weeks dates' = Inr ?ws" by (simp add: get_all_weeks_cases)
  qed
  show ?thesis
  proof (intro exI conjI)
    show "get_all_weeks dates = Inr ?ws" by (rule res)
    show "sorted_wrt (<) (map fst ?ws)" by (rule week_of_strict)
    show "\<forall>(a, b) \<in> set ?ws.
           weekday a = 0 \<and> b = a + 6 \<and> (\<exists>d \<in> set dates. a \<le> d \<and> d \<le> b)" by (rule a)
    show "\<forall>d \<in> set dates. \<exists>(a, b) \<in> set ?ws. a \<le> d \<and> d \<le> b" by (rule b)
    show "\<forall>dates'. mset dates' = mset dates \<longrightarrow> get_all_weeks dates' = Inr ?ws" by (rule c)
  qed
qed


text \<open>
  2024-05-15 is a Wednesday (ordinal 739021); its week runs from 2024-05-13 to 2024-05-19.
  Three dates of two weeks give the two weeks in ascending order, in either input order.
\<close>

theorem week_partition_witness:
  "ymd 2024 5 15 = 739021 \<and> weekday (ymd 2024 5 15) = 2
   \<and> get_all_weeks [ymd 2024 5 15] = Inr [(ymd 2024 5 13, ymd 2024 5 19)]
   \<and> get_all_weeks [ymd 2024 5 22, ymd 2024 5 15, ymd 2024 5 17] =
        Inr [(ymd 2024 5 13, ymd 2024 5 19), (ymd 2024 5 20, ymd 2024 5 26)]
   \<and> get_all_weeks [ymd 2024 5 17, ymd 2024 5 22, ymd 2024 5 15] =
        Inr [(ymd 2024 5 13, ymd 2024 5 19), (ymd 2024 5 20, ymd 2024 5 26)]"
proof -
  have range: "\<forall>d \<in> set [ymd 2024 5 22, ymd 2024 5 15, ymd 2024 5 17]. 1 \<le> d \<and> d \<le> 3652054"
    by (simp add: date_eval)
  have perm: "mset [ymd 2024 5 17, ymd 2024 5 22, ymd 2024 5 15] =
              mset [ymd 2024 5 22, ymd 2024 5 15, ymd 2024 5 17]"
    by simp
  have three: "get_all_weeks [ymd 2024 5 22, ymd 2024 5 15, ymd 2024 5 17] =
        Inr [(ymd 2024 5 13, ymd 2024 5 19), (ymd 2024 5 20, ymd 2024 5 26)]"
    by (simp add: get_all_weeks_eval date_eval)
  from week_partition [OF range] obtain weeks where
    w: "get_all_weeks [ymd 2024 5 22, ymd 2024 5 15, ymd 2024 5 17] = Inr weeks"
    and p: "\<forall>dates'. mset dates' = mset [ymd 2024 5 22, ymd 2024 5 15, ymd 2024 5 17] \<longrightarrow>
              get_all_weeks dates' = Inr weeks"
    by blast
  from w three have "weeks = [(ymd 2024 5 13, ymd 2024 5 19), (ymd 2024 5 20, ymd 2024 5 26)]"
    by simp
  with p perm have other: "get_all_weeks [ymd 2024 5 17, ymd 2024 5 22, ymd 2024 5 15] =
        Inr [(ymd 2024 5 13, ymd 2024 5 19), (ymd 2024 5 20, ymd 2024 5 26)]"
    by blast
  have one: "get_all_weeks [ymd 2024 5 15] = Inr [(ymd 2024 5 13, ymd 2024 5 19)]"
    by (simp add: get_all_weeks_eval date_eval)
  have day: "ymd 2024 5 15 = 739021 \<and> weekday (ymd 2024 5 15) = 2"
    by (simp add: date_eval)
  from day one three other show ?thesis by blast
qed

text \<open>
  C8 as stated fails for the last days of year 9999: the week of 9999-12-29 would end
  after \<^verbatim>\<open>date.max\<close>, and adding the six days raises \<^verbatim>\<open>OverflowError\<close>.
\<close>

theorem week_partition_overflow_counterexample:
  "ymd 9999 12 29 = 3652057 \<and> valid_date (ymd 9999 12 29)
   \<and> get_week_bounds (ymd 9999 12 29) = Inl OverflowError
   \<and> get_all_weeks [ymd 9999 12 29] = Inl OverflowError"
  by (simp add: get_all_weeks_eval get_week_bounds_cases valid_date_def date_eval)

end
